theory Spec2Isabelle
  imports Main "HOL-Library.Char_ord" "HOL-Library.List_Lexorder"
begin

section \<open>Strings and paths\<close>

text \<open>
  A JavaScript string is modelled as a \<^typ>\<open>string\<close>, the bytes of its UTF-8 form: the
  form in which it crosses the process boundary (\<open>execSync\<close> and \<open>readFileSync\<close> with
  encoding \<open>utf8\<close>, \<open>console.log\<close>). The separators the programme splits at and the
  markers it looks for are ASCII characters, which are single bytes there.
\<close>

definition nl :: char where
  "nl = CHR 0x0A"

definition dquote :: char where
  "dquote = CHR 0x22"

text \<open>\<open>s.split(sep)\<close> for a one-character separator: never the empty array.\<close>

fun split_on :: "char \<Rightarrow> string \<Rightarrow> string list" where
  "split_on sep [] = [[]]"
| "split_on sep (c # cs) =
     (if c = sep then [] # split_on sep cs
      else (case split_on sep cs of [] \<Rightarrow> [[c]] | f # fs \<Rightarrow> (c # f) # fs))"

text \<open>\<open>xs.join(sep)\<close>.\<close>

fun join :: "string \<Rightarrow> string list \<Rightarrow> string" where
  "join sep [] = []"
| "join sep [x] = x"
| "join sep (x # y # ys) = x @ sep @ join sep (y # ys)"

text \<open>\<open>s.startsWith(p)\<close>.\<close>

definition startsWith :: "string \<Rightarrow> string \<Rightarrow> bool" where
  "startsWith s p = (take (length p) s = p)"

text \<open>
  \<open>s.trim()\<close> removes the ECMAScript white space and line terminators from both ends:
  U+0009 to U+000D, U+0020, U+00A0, U+1680, U+2000 to U+200A, U+2028, U+2029, U+202F,
  U+205F, U+3000 and U+FEFF, listed here in UTF-8.
\<close>

definition white_space :: "string list" where
  "white_space =
    [[CHR 0x09], [CHR 0x0A], [CHR 0x0B], [CHR 0x0C], [CHR 0x0D], [CHR 0x20],
     [CHR 0xC2, CHR 0xA0],
     [CHR 0xE1, CHR 0x9A, CHR 0x80],
     [CHR 0xE2, CHR 0x80, CHR 0x80], [CHR 0xE2, CHR 0x80, CHR 0x81],
     [CHR 0xE2, CHR 0x80, CHR 0x82], [CHR 0xE2, CHR 0x80, CHR 0x83],
     [CHR 0xE2, CHR 0x80, CHR 0x84], [CHR 0xE2, CHR 0x80, CHR 0x85],
     [CHR 0xE2, CHR 0x80, CHR 0x86], [CHR 0xE2, CHR 0x80, CHR 0x87],
     [CHR 0xE2, CHR 0x80, CHR 0x88], [CHR 0xE2, CHR 0x80, CHR 0x89],
     [CHR 0xE2, CHR 0x80, CHR 0x8A],
     [CHR 0xE2, CHR 0x80, CHR 0xA8], [CHR 0xE2, CHR 0x80, CHR 0xA9],
     [CHR 0xE2, CHR 0x80, CHR 0xAF],
     [CHR 0xE2, CHR 0x81, CHR 0x9F],
     [CHR 0xE3, CHR 0x80, CHR 0x80],
     [CHR 0xEF, CHR 0xBB, CHR 0xBF]]"

definition leading :: "string list \<Rightarrow> string \<Rightarrow> string option" where
  "leading ws s = find (\<lambda>w. w \<noteq> [] \<and> take (length w) s = w) ws"

function strip_leading :: "string list \<Rightarrow> string \<Rightarrow> string" where
  "strip_leading ws s =
     (case leading ws s of None \<Rightarrow> s | Some w \<Rightarrow> strip_leading ws (drop (length w) s))"
  by pat_completeness auto
termination
proof (relation "measure (\<lambda>(ws, s). length s)")
  show "wf (measure (\<lambda>(ws, s). length s))"
    by simp
next
  fix ws :: "string list" and s w :: string
  assume "leading ws s = Some w"
  then have "w \<noteq> []" and "take (length w) s = w"
    by (auto simp: leading_def find_Some_iff)
  then have "length (take (length w) s) = length w" and "w \<noteq> []"
    by simp_all
  then have "length w \<le> length s" and "length w \<noteq> 0"
    by simp_all
  then have "length s - length w < length s"
    by arith
  then show "((ws, drop (length w) s), (ws, s)) \<in> measure (\<lambda>(ws, s). length s)"
    by simp
qed

declare strip_leading.simps [simp del]

definition trimStart :: "string \<Rightarrow> string" where
  "trimStart s = strip_leading white_space s"

definition trimEnd :: "string \<Rightarrow> string" where
  "trimEnd s = rev (strip_leading (map rev white_space) (rev s))"

definition trim :: "string \<Rightarrow> string" where
  "trim s = trimEnd (trimStart s)"

text \<open>Decimal digits of a number, as template literals print an integer.\<close>

definition digit_char :: "nat \<Rightarrow> char" where
  "digit_char n = ''0123456789'' ! n"

fun show_nat :: "nat \<Rightarrow> string" where
  "show_nat n =
     (if n < 10 then [digit_char n] else show_nat (n div 10) @ [digit_char (n mod 10)])"

declare show_nat.simps [simp del]

definition show_int :: "int \<Rightarrow> string" where
  "show_int i = (if i < 0 then CHR ''-'' # show_nat (nat (- i)) else show_nat (nat i))"

text \<open>
  \<open>path.join(dir, name)\<close> and \<open>path.basename(p)\<close> of Node's POSIX \<open>path\<close> module, on
  the arguments the programme passes: \<open>dir\<close> is a resolved absolute path (no \<open>.\<close> or
  \<open>..\<close> segment, no doubled or trailing slash but for the root) and \<open>name\<close> is one
  segment, so that joining has nothing to normalise.
\<close>

definition path_join :: "string \<Rightarrow> string \<Rightarrow> string" where
  "path_join dir name =
     (if dir = [] then name
      else if last dir = CHR ''/'' then dir @ name
      else dir @ ''/'' @ name)"

definition path_basename :: "string \<Rightarrow> string" where
  "path_basename p =
     rev (takeWhile (\<lambda>c. c \<noteq> CHR ''/'') (dropWhile (\<lambda>c. c = CHR ''/'') (rev p)))"

text \<open>A name that is one path segment, as a directory listing gives them.\<close>

definition segment :: "string \<Rightarrow> bool" where
  "segment n = (n \<noteq> [] \<and> CHR ''/'' \<notin> set n)"

section \<open>The environment of a run\<close>

datatype error =
    TypeError
  | SystemError string

record dirent =
  name :: string
  isDirectory :: bool

text \<open>The object \<open>spawnSync\<close> returns: \<open>error\<close> is set when the process could not be started.\<close>

record spawn_result =
  spawn_error :: "string option"
  stdout :: string
  stderr :: string

text \<open>
  Everything a run reads from outside: the file system, the two external commands, the
  clock with the local time zone, the working directory and the terminal colours.
  \<open>execSync w cwd cmd\<close> is \<open>execSync(cmd, {cwd, encoding: 'utf8'})\<close>; an \<open>Inl\<close> is a thrown
  exception. \<open>utc_offset w t\<close> is the offset of local time in force at the instant \<open>t\<close>,
  \<open>local_offset w t\<close> the offset under which the local time \<open>t\<close> is read, both in
  milliseconds. All calls of \<open>new Date()\<close> within one run give the instant \<open>now w\<close>.
\<close>

record world =
  existsSync :: "string \<Rightarrow> bool"
  readdirSync :: "string \<Rightarrow> error + dirent list"
  readFileSync :: "string \<Rightarrow> error + string"
  execSync :: "string \<Rightarrow> string \<Rightarrow> error + string"
  spawnSync :: "string \<Rightarrow> string list \<Rightarrow> string + spawn_result"
  now :: int
  utc_offset :: "int \<Rightarrow> int"
  local_offset :: "int \<Rightarrow> int"
  cwd :: string
  chalk_blue :: "string \<Rightarrow> string"
  chalk_yellow :: "string \<Rightarrow> string"

text \<open>
  The module constants, as resolved from the command line. \<open>DAYS\<close> is the integer that
  \<open>parseInt\<close> gives; an argument without one (\<open>NaN\<close>) is left out. \<open>WORKSPACE\<close> is the
  resolved path, \<open>AUTHOR\<close> the given or configured name, empty when there is none.
\<close>

record config =
  DAYS :: int
  WORKSPACE :: string
  USE_AI :: bool
  JSON_OUTPUT :: bool
  AUTHOR :: string

section \<open>Repository locator\<close>

definition is_candidate :: "world \<Rightarrow> string \<Rightarrow> dirent \<Rightarrow> bool" where
  "is_candidate w dir entry =
     (isDirectory entry \<and> name entry \<noteq> ''.git'' \<and> name entry \<noteq> ''node_modules''
      \<and> existsSync w (path_join (path_join dir (name entry)) ''.git''))"

definition getRepos :: "world \<Rightarrow> string \<Rightarrow> string list" where
  "getRepos w dir =
     (let repos = (if existsSync w (path_join dir ''.git'') then [dir] else [])
      in case readdirSync w dir of
           Inl e \<Rightarrow> repos
         | Inr entries \<Rightarrow>
             repos @ map (\<lambda>entry. path_join dir (name entry)) (filter (is_candidate w dir) entries))"

section \<open>Commit extractor\<close>

text \<open>
  A commit record. The three fields destructured from the split line are \<open>None\<close> where
  JavaScript leaves them \<open>undefined\<close>.
\<close>

record commit =
  hash :: "string option"
  date :: "string option"
  msg :: "string option"
  repo :: string

definition nth_opt :: "'a list \<Rightarrow> nat \<Rightarrow> 'a option" where
  "nth_opt xs i = (if i < length xs then Some (xs ! i) else None)"

definition git_log_command :: "int \<Rightarrow> string \<Rightarrow> string" where
  "git_log_command days author =
     ''git log --since='' @ [dquote] @ show_int days @ '' days ago'' @ [dquote]
     @ '' --pretty=format:'' @ [dquote] @ ''%h|%ad|%s'' @ [dquote]
     @ '' --date=short --no-merges''
     @ (if author \<noteq> [] then '' --author='' @ [dquote] @ author @ [dquote] else [])"

definition parse_line :: "string \<Rightarrow> string \<Rightarrow> commit" where
  "parse_line repoPath line =
     (let fields = split_on (CHR ''|'') line
      in \<lparr>hash = nth_opt fields 0, date = nth_opt fields 1, msg = nth_opt fields 2,
          repo = path_basename repoPath\<rparr>)"

definition getGitLogs :: "world \<Rightarrow> string \<Rightarrow> int \<Rightarrow> string \<Rightarrow> commit list" where
  "getGitLogs w repoPath days author =
     (case execSync w repoPath (git_log_command days author) of
        Inl e \<Rightarrow> []
      | Inr out \<Rightarrow>
          (let output = trim out
           in if output = [] then [] else map (parse_line repoPath) (split_on nl output)))"

section \<open>Dates\<close>

text \<open>
  The time value of a \<open>Date\<close> is a number of milliseconds since the epoch, and its
  calendar is the proleptic Gregorian one. \<open>civil_from_days\<close> gives the year, the month
  (0 to 11) and the day of the month (\<open>YearFromTime\<close>, \<open>MonthFromTime\<close>, \<open>DateFromTime\<close>)
  of a day number, \<open>MakeDay\<close> is its inverse on the first of a month, extended linearly in
  the day as ECMAScript does.
\<close>

definition msPerDay :: int where
  "msPerDay = 86400000"

definition Day :: "int \<Rightarrow> int" where
  "Day t = t div msPerDay"

definition TimeWithinDay :: "int \<Rightarrow> int" where
  "TimeWithinDay t = t mod msPerDay"

definition civil_from_days :: "int \<Rightarrow> int \<times> int \<times> int" where
  "civil_from_days n =
     (let z = n + 719468;
          era = z div 146097;
          doe = z mod 146097;
          yoe = (doe - doe div 1460 + doe div 36524 - doe div 146096) div 365;
          doy = doe - (365 * yoe + yoe div 4 - yoe div 100);
          mp = (5 * doy + 2) div 153;
          d = doy - (153 * mp + 2) div 5 + 1;
          m = (if mp < 10 then mp + 2 else mp - 10);
          y = yoe + era * 400 + (if m \<le> 1 then 1 else 0)
      in (y, m, d))"

definition MakeDay :: "int \<Rightarrow> int \<Rightarrow> int \<Rightarrow> int" where
  "MakeDay year month dt =
     (let y = year - (if month \<le> 1 then 1 else 0);
          era = y div 400;
          yoe = y mod 400;
          mp = (if month > 1 then month - 2 else month + 10);
          doy = (153 * mp + 2) div 5;
          doe = yoe * 365 + yoe div 4 - yoe div 100 + doy
      in era * 146097 + doe - 719468 + dt - 1)"

definition MakeDate :: "int \<Rightarrow> int \<Rightarrow> int" where
  "MakeDate day time = day * msPerDay + time"

definition LocalTime :: "world \<Rightarrow> int \<Rightarrow> int" where
  "LocalTime w t = t + utc_offset w t"

definition UTC :: "world \<Rightarrow> int \<Rightarrow> int" where
  "UTC w t = t - local_offset w t"

text \<open>\<open>d.getDate()\<close>: the day of the month in local time.\<close>

definition getDate :: "world \<Rightarrow> int \<Rightarrow> int" where
  "getDate w t = (case civil_from_days (Day (LocalTime w t)) of (y, m, d) \<Rightarrow> d)"

text \<open>
  \<open>d.setDate(dt)\<close>: the day of the month is replaced in local time, the year, the month
  and the time of day are kept; the new time value is returned.
\<close>

definition setDate :: "world \<Rightarrow> int \<Rightarrow> int \<Rightarrow> int" where
  "setDate w t dt =
     (let lt = LocalTime w t
      in case civil_from_days (Day lt) of
           (y, m, d) \<Rightarrow> UTC w (MakeDate (MakeDay y m dt) (TimeWithinDay lt)))"

definition pad :: "nat \<Rightarrow> string \<Rightarrow> string" where
  "pad n s = replicate (n - length s) (CHR ''0'') @ s"

definition year_string :: "int \<Rightarrow> string" where
  "year_string y =
     (if 0 \<le> y \<and> y \<le> 9999 then pad 4 (show_int y)
      else (if y < 0 then ''-'' else ''+'') @ pad 6 (show_nat (nat \<bar>y\<bar>)))"

text \<open>\<open>d.toISOString()\<close>: the fields are those of UTC.\<close>

definition toISOString :: "int \<Rightarrow> string" where
  "toISOString t =
     (let tod = TimeWithinDay t
      in case civil_from_days (Day t) of
           (y, m, d) \<Rightarrow>
             year_string y @ ''-'' @ pad 2 (show_int (m + 1)) @ ''-'' @ pad 2 (show_int d)
             @ ''T'' @ pad 2 (show_int (tod div 3600000))
             @ '':'' @ pad 2 (show_int (tod div 60000 mod 60))
             @ '':'' @ pad 2 (show_int (tod div 1000 mod 60))
             @ ''.'' @ pad 3 (show_int (tod mod 1000)) @ ''Z'')"

definition first :: "string list \<Rightarrow> string" where
  "first xs = (case xs of [] \<Rightarrow> [] | x # _ \<Rightarrow> x)"

section \<open>Note reader\<close>

record memory_entry =
  mem_date :: string
  content :: string

text \<open>The date string of loop index \<open>i\<close>: \<open>today\<close> and \<open>d\<close> are both \<open>new Date()\<close>.\<close>

definition dateStr :: "world \<Rightarrow> int \<Rightarrow> string" where
  "dateStr w i =
     (let today = now w;
          d = setDate w (now w) (getDate w today - i)
      in first (split_on (CHR ''T'') (toISOString d)))"

definition targetMemPath :: "world \<Rightarrow> string \<Rightarrow> string \<Rightarrow> string" where
  "targetMemPath w workspace ds =
     (let target = path_join (path_join workspace ''memory'') (ds @ ''.md'')
      in if \<not> existsSync w target
         then path_join (path_join (cwd w) ''memory'') (ds @ ''.md'')
         else target)"

text \<open>The loop of \<open>getMemoryLogs\<close> over its remaining indices; \<open>readFileSync\<close> may throw.\<close>

fun memory_loop :: "world \<Rightarrow> string \<Rightarrow> memory_entry list \<Rightarrow> int list \<Rightarrow> error + memory_entry list" where
  "memory_loop w workspace memories [] = Inr memories"
| "memory_loop w workspace memories (i # rest) =
     (let ds = dateStr w i;
          target = targetMemPath w workspace ds
      in if existsSync w target
         then (case readFileSync w target of
                 Inl e \<Rightarrow> Inl e
               | Inr text \<Rightarrow>
                   memory_loop w workspace (memories @ [\<lparr>mem_date = ds, content = text\<rparr>]) rest)
         else memory_loop w workspace memories rest)"

definition getMemoryLogs :: "world \<Rightarrow> string \<Rightarrow> int \<Rightarrow> error + memory_entry list" where
  "getMemoryLogs w workspace days = memory_loop w workspace [] [0..days - 1]"

section \<open>Report aggregator\<close>

text \<open>
  \<open>s.localeCompare(t)\<close>, as the order of the strings: on the dates that
  \<open>--date=short\<close> prints (ten characters, digits with hyphens at fixed places) the
  collation of every locale is this order. An \<open>undefined\<close> argument is converted to the
  string \<open>undefined\<close>, an \<open>undefined\<close> receiver is a \<open>TypeError\<close>.
\<close>

definition localeCompare :: "string \<Rightarrow> string \<Rightarrow> int" where
  "localeCompare s t = (if s < t then - 1 else if s = t then 0 else 1)"

definition ToString :: "string option \<Rightarrow> string" where
  "ToString v = (case v of None \<Rightarrow> ''undefined'' | Some s \<Rightarrow> s)"

definition compare_commits :: "commit \<Rightarrow> commit \<Rightarrow> error + int" where
  "compare_commits a b =
     (case date b of
        None \<Rightarrow> Inl TypeError
      | Some d \<Rightarrow> Inr (localeCompare d (ToString (date a))))"

text \<open>The form of a date that \<open>--date=short\<close> prints: \<open>YYYY-MM-DD\<close>.\<close>

definition is_digit :: "char \<Rightarrow> bool" where
  "is_digit c = (c \<in> set ''0123456789'')"


text \<open>
  \<open>Array.prototype.sort\<close> with a comparator is stable; which pairs it compares is left to
  the engine. It is modelled as an insertion sort: each element in turn is the first
  argument of the comparator, against elements placed before it (the argument order of
  V8), and goes in front of the first one it is smaller than. An exception of the
  comparator ends the sort. When the comparator never throws and orders the elements, every
  stable sort gives the result of this one.
\<close>

fun insert_sorted :: "('a \<Rightarrow> 'a \<Rightarrow> error + int) \<Rightarrow> 'a \<Rightarrow> 'a list \<Rightarrow> error + 'a list" where
  "insert_sorted cmp x [] = Inr [x]"
| "insert_sorted cmp x (y # ys) =
     (case cmp x y of
        Inl e \<Rightarrow> Inl e
      | Inr order \<Rightarrow>
          if order < 0 then Inr (x # y # ys)
          else (case insert_sorted cmp x ys of Inl e \<Rightarrow> Inl e | Inr zs \<Rightarrow> Inr (y # zs)))"

fun sort_loop :: "('a \<Rightarrow> 'a \<Rightarrow> error + int) \<Rightarrow> 'a list \<Rightarrow> 'a list \<Rightarrow> error + 'a list" where
  "sort_loop cmp done [] = Inr done"
| "sort_loop cmp done (x # xs) =
     (case insert_sorted cmp x done of Inl e \<Rightarrow> Inl e | Inr done' \<Rightarrow> sort_loop cmp done' xs)"

definition array_sort :: "('a \<Rightarrow> 'a \<Rightarrow> error + int) \<Rightarrow> 'a list \<Rightarrow> error + 'a list" where
  "array_sort cmp xs = sort_loop cmp [] xs"

text \<open>The loop of \<open>run\<close> over the located repositories, \<open>allCommits\<close> being its variable.\<close>

fun collect :: "world \<Rightarrow> int \<Rightarrow> string \<Rightarrow> commit list \<Rightarrow> string list \<Rightarrow> commit list" where
  "collect w days author allCommits [] = allCommits"
| "collect w days author allCommits (r # rs) =
     (let commits = getGitLogs w r days author
      in collect w days author
           (if length commits > 0 then allCommits @ commits else allCommits) rs)"

text \<open>\<open>[...new Set(xs)]\<close>: the distinct elements in the order of their first occurrence.\<close>

definition Set_add :: "'a list \<Rightarrow> 'a \<Rightarrow> 'a list" where
  "Set_add s x = (if x \<in> set s then s else s @ [x])"

definition new_Set :: "'a list \<Rightarrow> 'a list" where
  "new_Set xs = foldl Set_add [] xs"

record stats =
  reposTouched :: nat
  totalCommits :: nat
  memoryEntries :: nat

record report =
  range' :: string
  author :: string
  stats :: stats
  commits :: "commit list"
  memory :: "memory_entry list"

definition make_data :: "config \<Rightarrow> commit list \<Rightarrow> memory_entry list \<Rightarrow> report" where
  "make_data cfg allCommits memories =
     \<lparr>range' = show_int (DAYS cfg) @ '' days'',
      author = AUTHOR cfg,
      stats = \<lparr>reposTouched = length (new_Set (map repo allCommits)),
               totalCommits = length allCommits,
               memoryEntries = length memories\<rparr>,
      commits = allCommits,
      memory = memories\<rparr>"

text \<open>The part of \<open>run\<close> up to the construction of \<open>data\<close>.\<close>

definition all_commits :: "world \<Rightarrow> config \<Rightarrow> commit list" where
  "all_commits w cfg = collect w (DAYS cfg) (AUTHOR cfg) [] (getRepos w (WORKSPACE cfg))"

definition build_data :: "world \<Rightarrow> config \<Rightarrow> error + report" where
  "build_data w cfg =
     (case array_sort compare_commits (all_commits w cfg) of
        Inl e \<Rightarrow> Inl e
      | Inr allCommits \<Rightarrow>
          (case getMemoryLogs w (WORKSPACE cfg) (DAYS cfg) of
             Inl e \<Rightarrow> Inl e
           | Inr memories \<Rightarrow> Inr (make_data cfg allCommits memories)))"

section \<open>Structured output\<close>

text \<open>
  The values \<open>JSON.stringify\<close> writes for \<open>data\<close>: strings, integers, arrays and objects
  with their members in order. A property whose value is \<open>undefined\<close> is not written.
\<close>

datatype json =
    JString string
  | JNumber int
  | JArray "json list"
  | JObject "(string \<times> json) list"

definition property :: "string \<Rightarrow> string option \<Rightarrow> (string \<times> json) list" where
  "property key v = (case v of None \<Rightarrow> [] | Some s \<Rightarrow> [(key, JString s)])"

definition commit_json :: "commit \<Rightarrow> json" where
  "commit_json c =
     JObject (property ''hash'' (hash c) @ property ''date'' (date c) @ property ''msg'' (msg c)
              @ [(''repo'', JString (repo c))])"

definition memory_json :: "memory_entry \<Rightarrow> json" where
  "memory_json m = JObject [(''date'', JString (mem_date m)), (''content'', JString (content m))]"

definition stats_json :: "stats \<Rightarrow> json" where
  "stats_json st =
     JObject [(''reposTouched'', JNumber (int (reposTouched st))),
              (''totalCommits'', JNumber (int (totalCommits st))),
              (''memoryEntries'', JNumber (int (memoryEntries st)))]"

definition data_json :: "report \<Rightarrow> json" where
  "data_json data =
     JObject [(''range'', JString (range' data)),
              (''author'', JString (author data)),
              (''stats'', stats_json (stats data)),
              (''commits'', JArray (map commit_json (commits data))),
              (''memory'', JArray (map memory_json (memory data)))]"

definition backslash :: char where
  "backslash = CHR 0x5C"

definition hex_digit :: "nat \<Rightarrow> char" where
  "hex_digit n = ''0123456789abcdef'' ! n"

definition escape :: "char \<Rightarrow> string" where
  "escape c =
     (if c = CHR 0x08 then [backslash, CHR ''b'']
      else if c = CHR 0x09 then [backslash, CHR ''t'']
      else if c = CHR 0x0A then [backslash, CHR ''n'']
      else if c = CHR 0x0C then [backslash, CHR ''f'']
      else if c = CHR 0x0D then [backslash, CHR ''r'']
      else if c = dquote then [backslash, dquote]
      else if c = backslash then [backslash, backslash]
      else if of_char c < (32 :: nat)
        then [backslash, CHR ''u'', CHR ''0'', CHR ''0'',
              hex_digit (of_char c div 16), hex_digit (of_char c mod 16)]
      else [c])"

definition QuoteJSONString :: "string \<Rightarrow> string" where
  "QuoteJSONString s = dquote # concat (map escape s) @ [dquote]"

text \<open>
  The brackets around the serialised members of an array or object: on one line when the
  gap is empty, else one member a line, indented by the gap once more than the bracket.
\<close>

definition wrap :: "string \<Rightarrow> string \<Rightarrow> string \<Rightarrow> string list \<Rightarrow> string \<Rightarrow> string" where
  "wrap gap stepback opening partial closing =
     (if gap = [] then opening @ join '','' partial @ closing
      else opening @ [nl] @ stepback @ gap
           @ join ('','' @ [nl] @ stepback @ gap) partial
           @ [nl] @ stepback @ closing)"

fun stringify :: "string \<Rightarrow> string \<Rightarrow> json \<Rightarrow> string" where
  "stringify gap indent (JString s) = QuoteJSONString s"
| "stringify gap indent (JNumber n) = show_int n"
| "stringify gap indent (JArray xs) =
     (if xs = [] then ''[]''
      else wrap gap indent ''['' (map (stringify gap (indent @ gap)) xs) '']'')"
| "stringify gap indent (JObject kvs) =
     (if kvs = [] then ''{}''
      else wrap gap indent ''{''
             (map (\<lambda>kv. QuoteJSONString (fst kv) @ (if gap = [] then '':'' else '': '')
                         @ stringify gap (indent @ gap) (snd kv)) kvs)
             ''}'')"

text \<open>\<open>JSON.stringify(v, null, n)\<close>, and \<open>JSON.stringify(v)\<close> for \<open>n = 0\<close>.\<close>

definition JSON_stringify :: "nat \<Rightarrow> json \<Rightarrow> string" where
  "JSON_stringify n v = stringify (replicate n (CHR '' '')) [] v"

section \<open>Reading the structured output back\<close>

text \<open>
  \<open>JSON.parse\<close>, for the documents that \<open>JSON.stringify\<close> writes here: objects, arrays,
  strings and integers, with white space between the tokens. The result is \<open>None\<close> for a
  text that is not JSON and for what is left out: the literals \<open>true\<close>, \<open>false\<close> and
  \<open>null\<close>, fractions and exponents, and escaped code units above U+007F. The recursion
  is bounded by a fuel that \<open>JSON_parse\<close> sets above the length of the text.
\<close>

definition is_json_ws :: "char \<Rightarrow> bool" where
  "is_json_ws c = (c = CHR 0x20 \<or> c = CHR 0x09 \<or> c = CHR 0x0A \<or> c = CHR 0x0D)"

definition skip_ws :: "string \<Rightarrow> string" where
  "skip_ws s = dropWhile is_json_ws s"

definition digit_value :: "char \<Rightarrow> nat option" where
  "digit_value c = (if is_digit c then Some (of_char c - 48) else None)"

definition hex_value :: "char \<Rightarrow> nat option" where
  "hex_value c =
     (if is_digit c then Some (of_char c - 48)
      else if c \<in> set ''abcdef'' then Some (of_char c - 87)
      else if c \<in> set ''ABCDEF'' then Some (of_char c - 55)
      else None)"

definition simple_escape :: "char \<Rightarrow> char option" where
  "simple_escape e =
     (if e = dquote then Some dquote
      else if e = backslash then Some backslash
      else if e = CHR ''/'' then Some (CHR ''/'')
      else if e = CHR ''b'' then Some (CHR 0x08)
      else if e = CHR ''f'' then Some (CHR 0x0C)
      else if e = CHR ''n'' then Some (CHR 0x0A)
      else if e = CHR ''r'' then Some (CHR 0x0D)
      else if e = CHR ''t'' then Some (CHR 0x09)
      else None)"

definition unicode_escape :: "char \<Rightarrow> char \<Rightarrow> char \<Rightarrow> char \<Rightarrow> char option" where
  "unicode_escape a b c d =
     (case (hex_value a, hex_value b, hex_value c, hex_value d) of
        (Some h3, Some h2, Some h1, Some h0) \<Rightarrow>
          (let code = ((h3 * 16 + h2) * 16 + h1) * 16 + h0
           in if code < 128 then Some (char_of code) else None)
      | _ \<Rightarrow> None)"

definition cons_chars :: "char \<Rightarrow> (string \<times> string) option \<Rightarrow> (string \<times> string) option" where
  "cons_chars c r = map_option (\<lambda>p. (c # fst p, snd p)) r"

fun parse_chars :: "string \<Rightarrow> (string \<times> string) option" where
  "parse_chars [] = None"
| "parse_chars (c # cs) =
     (if c = dquote then Some ([], cs)
      else if c = backslash then
        (case cs of
           [] \<Rightarrow> None
         | e # rest \<Rightarrow>
             if e = CHR ''u'' then
               (case rest of
                  a # b # c' # d # rest' \<Rightarrow>
                    (case unicode_escape a b c' d of
                       None \<Rightarrow> None
                     | Some ch \<Rightarrow> cons_chars ch (parse_chars rest'))
                | _ \<Rightarrow> None)
             else (case simple_escape e of
                     None \<Rightarrow> None
                   | Some ch \<Rightarrow> cons_chars ch (parse_chars rest)))
      else if of_char c < (32 :: nat) then None
      else cons_chars c (parse_chars cs))"

fun parse_digits :: "nat \<Rightarrow> string \<Rightarrow> nat \<times> string" where
  "parse_digits acc [] = (acc, [])"
| "parse_digits acc (c # cs) =
     (case digit_value c of None \<Rightarrow> (acc, c # cs) | Some d \<Rightarrow> parse_digits (10 * acc + d) cs)"

definition parse_number :: "string \<Rightarrow> (json \<times> string) option" where
  "parse_number s =
     (let negative = (s \<noteq> [] \<and> hd s = CHR ''-'');
          ds = (if negative then tl s else s)
      in case ds of
           [] \<Rightarrow> None
         | c # cs \<Rightarrow>
             if \<not> is_digit c then None
             else if c = CHR ''0'' \<and> cs \<noteq> [] \<and> is_digit (hd cs) then None
             else (case parse_digits 0 ds of
                     (n, r) \<Rightarrow>
                       if r \<noteq> [] \<and> hd r \<in> set ''.eE'' then None
                       else Some (JNumber (if negative then - int n else int n), r)))"

fun parse_value :: "nat \<Rightarrow> string \<Rightarrow> (json \<times> string) option"
  and parse_elements :: "nat \<Rightarrow> string \<Rightarrow> (json list \<times> string) option"
  and parse_members :: "nat \<Rightarrow> string \<Rightarrow> ((string \<times> json) list \<times> string) option" where
  "parse_value 0 s = None"
| "parse_value (Suc fuel) s =
     (case s of
        [] \<Rightarrow> None
      | c # cs \<Rightarrow>
          if c = dquote then map_option (\<lambda>p. (JString (fst p), snd p)) (parse_chars cs)
          else if c = CHR ''['' then
            (case skip_ws cs of
               [] \<Rightarrow> None
             | d # ds \<Rightarrow>
                 if d = CHR '']'' then Some (JArray [], ds)
                 else map_option (\<lambda>p. (JArray (fst p), snd p)) (parse_elements fuel (d # ds)))
          else if c = CHR ''{'' then
            (case skip_ws cs of
               [] \<Rightarrow> None
             | d # ds \<Rightarrow>
                 if d = CHR ''}'' then Some (JObject [], ds)
                 else map_option (\<lambda>p. (JObject (fst p), snd p)) (parse_members fuel (d # ds)))
          else parse_number s)"
| "parse_elements 0 s = None"
| "parse_elements (Suc fuel) s =
     (case parse_value fuel s of
        None \<Rightarrow> None
      | Some (v, r) \<Rightarrow>
          (case skip_ws r of
             [] \<Rightarrow> None
           | d # ds \<Rightarrow>
               if d = CHR '','' then
                 map_option (\<lambda>p. (v # fst p, snd p)) (parse_elements fuel (skip_ws ds))
               else if d = CHR '']'' then Some ([v], ds)
               else None))"
| "parse_members 0 s = None"
| "parse_members (Suc fuel) s =
     (case s of
        [] \<Rightarrow> None
      | q # cs \<Rightarrow>
          if q \<noteq> dquote then None
          else (case parse_chars cs of
                  None \<Rightarrow> None
                | Some (key, r) \<Rightarrow>
                    (case skip_ws r of
                       [] \<Rightarrow> None
                     | c # r1 \<Rightarrow>
                         if c \<noteq> CHR '':'' then None
                         else (case parse_value fuel (skip_ws r1) of
                                 None \<Rightarrow> None
                               | Some (v, r2) \<Rightarrow>
                                   (case skip_ws r2 of
                                      [] \<Rightarrow> None
                                    | d # ds \<Rightarrow>
                                        if d = CHR '','' then
                                          map_option (\<lambda>p. ((key, v) # fst p, snd p))
                                            (parse_members fuel (skip_ws ds))
                                        else if d = CHR ''}'' then Some ([(key, v)], ds)
                                        else None)))))"

definition JSON_parse :: "string \<Rightarrow> json option" where
  "JSON_parse s =
     (case parse_value (Suc (length s)) (skip_ws s) of
        None \<Rightarrow> None
      | Some (v, r) \<Rightarrow> if skip_ws r = [] then Some v else None)"

text \<open>
  What a reader gets from the parsed document: \<open>v[key]\<close> for a member, \<open>None\<close> for a member
  that is not there, as property access gives \<open>undefined\<close>; and the report read field by
  field.
\<close>

definition member :: "string \<Rightarrow> json \<Rightarrow> json option" where
  "member key v = (case v of JObject kvs \<Rightarrow> map_of kvs key | _ \<Rightarrow> None)"

definition as_string :: "json option \<Rightarrow> string option" where
  "as_string v = (case v of Some (JString s) \<Rightarrow> Some s | _ \<Rightarrow> None)"

definition as_count :: "json option \<Rightarrow> nat option" where
  "as_count v = (case v of Some (JNumber n) \<Rightarrow> (if 0 \<le> n then Some (nat n) else None) | _ \<Rightarrow> None)"

definition as_array :: "json option \<Rightarrow> json list option" where
  "as_array v = (case v of Some (JArray xs) \<Rightarrow> Some xs | _ \<Rightarrow> None)"

definition read_commit :: "json \<Rightarrow> commit option" where
  "read_commit v =
     map_option (\<lambda>r. \<lparr>hash = as_string (member ''hash'' v), date = as_string (member ''date'' v),
                       msg = as_string (member ''msg'' v), repo = r\<rparr>)
       (as_string (member ''repo'' v))"

definition read_memory :: "json \<Rightarrow> memory_entry option" where
  "read_memory v =
     Option.bind (as_string (member ''date'' v)) (\<lambda>d.
     map_option (\<lambda>c. \<lparr>mem_date = d, content = c\<rparr>) (as_string (member ''content'' v)))"

definition read_stats :: "json \<Rightarrow> stats option" where
  "read_stats v =
     Option.bind (as_count (member ''reposTouched'' v)) (\<lambda>r.
     Option.bind (as_count (member ''totalCommits'' v)) (\<lambda>t.
     map_option (\<lambda>m. \<lparr>reposTouched = r, totalCommits = t, memoryEntries = m\<rparr>)
       (as_count (member ''memoryEntries'' v))))"

definition read_all :: "('a \<Rightarrow> 'b option) \<Rightarrow> 'a list \<Rightarrow> 'b list option" where
  "read_all f xs = (if list_all (\<lambda>x. f x \<noteq> None) xs then Some (map (\<lambda>x. the (f x)) xs) else None)"

definition read_data :: "json \<Rightarrow> report option" where
  "read_data v =
     Option.bind (as_string (member ''range'' v)) (\<lambda>r.
     Option.bind (as_string (member ''author'' v)) (\<lambda>a.
     Option.bind (Option.bind (member ''stats'' v) read_stats) (\<lambda>st.
     Option.bind (Option.bind (as_array (member ''commits'' v)) (read_all read_commit)) (\<lambda>cs.
     map_option (\<lambda>ms. \<lparr>range' = r, author = a, stats = st, commits = cs, memory = ms\<rparr>)
       (Option.bind (as_array (member ''memory'' v)) (read_all read_memory))))))"

text \<open>Shapes of text used in the proofs about the parser.\<close>

definition delimited :: "string \<Rightarrow> bool" where
  "delimited rest = (rest = [] \<or> hd rest \<in> set [CHR '','', CHR '']'', CHR ''}'', CHR 0x0A])"

definition ws_string :: "string \<Rightarrow> bool" where
  "ws_string s = list_all is_json_ws s"

definition value_start :: "char \<Rightarrow> bool" where
  "value_start c = (c = dquote \<or> c = CHR ''['' \<or> c = CHR ''{'' \<or> c = CHR ''-'' \<or> is_digit c)"

section \<open>Text output\<close>

text \<open>
  \<open>byRepo\<close> is an object used as a dictionary: its own properties in the order of their
  creation. A name that \<open>Object.prototype\<close> defines is found there, is truthy and has no
  \<open>push\<close>.
\<close>

definition object_prototype_keys :: "string list" where
  "object_prototype_keys =
     [''constructor'', ''__proto__'', ''hasOwnProperty'', ''isPrototypeOf'',
      ''propertyIsEnumerable'', ''toLocaleString'', ''toString'', ''valueOf'',
      ''__defineGetter__'', ''__defineSetter__'', ''__lookupGetter__'', ''__lookupSetter__'']"

definition byRepo_push ::
  "(string \<times> commit list) list \<Rightarrow> commit \<Rightarrow> error + (string \<times> commit list) list" where
  "byRepo_push byRepo c =
     (case map_of byRepo (repo c) of
        Some cs \<Rightarrow> Inr (map (\<lambda>kv. if fst kv = repo c then (fst kv, snd kv @ [c]) else kv) byRepo)
      | None \<Rightarrow>
          if repo c \<in> set object_prototype_keys then Inl TypeError
          else Inr (byRepo @ [(repo c, [c])]))"

fun group_by_repo ::
  "(string \<times> commit list) list \<Rightarrow> commit list \<Rightarrow> error + (string \<times> commit list) list" where
  "group_by_repo byRepo [] = Inr byRepo"
| "group_by_repo byRepo (c # cs) =
     (case byRepo_push byRepo c of Inl e \<Rightarrow> Inl e | Inr byRepo' \<Rightarrow> group_by_repo byRepo' cs)"

text \<open>
  \<open>Object.entries\<close>: the keys that are array indices (canonical decimal numbers below
  \<open>2^32 - 1\<close>) come first, in ascending order, the others follow in creation order.
\<close>

definition array_index :: "string \<Rightarrow> nat option" where
  "array_index k =
     (if k \<noteq> [] \<and> list_all (\<lambda>c. c \<in> set ''0123456789'') k
      then (let n = foldl (\<lambda>n c. 10 * n + (of_char c - 48)) 0 k
            in if show_nat n = k \<and> n < 4294967295 then Some n else None)
      else None)"

definition Object_entries :: "(string \<times> 'v) list \<Rightarrow> (string \<times> 'v) list" where
  "Object_entries obj =
     sort_key (\<lambda>kv. the (array_index (fst kv))) (filter (\<lambda>kv. array_index (fst kv) \<noteq> None) obj)
     @ filter (\<lambda>kv. array_index (fst kv) = None) obj"

definition commit_line :: "commit \<Rightarrow> string" where
  "commit_line c =
     ''- '' @ ToString (date c) @ '' '' @ ToString (msg c) @ '' `('' @ ToString (hash c)
     @ '')`'' @ [nl]"

definition repo_section :: "string \<times> commit list \<Rightarrow> string" where
  "repo_section kv = ''### '' @ fst kv @ [nl] @ concat (map commit_line (snd kv)) @ [nl]"

definition code_activity :: "commit list \<Rightarrow> error + string" where
  "code_activity allCommits =
     (if length allCommits = 0 then Inr (''No commits found.'' @ [nl])
      else (case group_by_repo [] allCommits of
              Inl e \<Rightarrow> Inl e
            | Inr byRepo \<Rightarrow> Inr (concat (map repo_section (Object_entries byRepo)))))"

text \<open>The filter of the digest of a memory file, and the digest.\<close>

definition interesting :: "string \<Rightarrow> bool" where
  "interesting l = (startsWith l ''#'' \<or> startsWith (trim l) ''-'' \<or> length (trim l) > 0)"

definition summary :: "string \<Rightarrow> string" where
  "summary text = join [nl] (take 10 (filter interesting (split_on nl text)))"

definition memory_section :: "memory_entry \<Rightarrow> string" where
  "memory_section m =
     ''### '' @ mem_date m @ [nl]
     @ summary (content m) @ [nl] @ ''... (see file for full details)'' @ [nl, nl]"

definition memory_logs :: "memory_entry list \<Rightarrow> string" where
  "memory_logs memories =
     (if length memories = 0 then ''No memory logs found.'' @ [nl]
      else concat (map memory_section memories))"

text \<open>The emoji of the three headings, in UTF-8.\<close>

definition hammer_and_wrench :: string where
  "hammer_and_wrench = [CHR 0xF0, CHR 0x9F, CHR 0x9B, CHR 0xA0]"

definition brain :: string where
  "brain = [CHR 0xF0, CHR 0x9F, CHR 0xA7, CHR 0xA0]"

definition warning_sign :: string where
  "warning_sign = [CHR 0xE2, CHR 0x9A, CHR 0xA0, CHR 0xEF, CHR 0xB8, CHR 0x8F]"

definition render_markdown :: "world \<Rightarrow> config \<Rightarrow> report \<Rightarrow> error + string" where
  "render_markdown w cfg data =
     (case code_activity (commits data) of
        Inl e \<Rightarrow> Inl e
      | Inr activity \<Rightarrow>
          Inr (''# Standup Report ('' @ first (split_on (CHR ''T'') (toISOString (now w))) @ '')''
               @ [nl, nl]
               @ ''**Range:** Last '' @ show_int (DAYS cfg) @ '' days'' @ [nl]
               @ ''**Author:** '' @ AUTHOR cfg @ [nl]
               @ ''**Activity:** '' @ show_nat (totalCommits (stats data)) @ '' commits across ''
               @ show_nat (reposTouched (stats data)) @ '' repos.'' @ [nl, nl]
               @ ''## '' @ hammer_and_wrench @ '' Code Activity'' @ [nl]
               @ activity
               @ ''## '' @ brain @ '' Memory Logs'' @ [nl]
               @ memory_logs (memory data)))"

section \<open>AI summary\<close>

definition prompt :: "config \<Rightarrow> report \<Rightarrow> string" where
  "prompt cfg data =
     [nl] @ ''You are an AI assistant generating a daily standup report.'' @ [nl]
     @ ''Here is the raw activity log for '' @ AUTHOR cfg @ '' over the last ''
     @ show_int (DAYS cfg) @ '' days.'' @ [nl]
     @ ''Summarize this into a concise narrative:'' @ [nl]
     @ ''1. What were the main focus areas?'' @ [nl]
     @ ''2. What key tools/features were shipped?'' @ [nl]
     @ ''3. Any significant blockers or notes from memory?'' @ [nl]
     @ [nl]
     @ ''RAW DATA:'' @ [nl]
     @ JSON_stringify 0 (data_json data) @ [nl]"

definition failed_heading :: string where
  "failed_heading = [nl] @ ''## '' @ warning_sign @ '' AI Summary Failed'' @ [nl]"

text \<open>
  The \<open>try\<close> block of the summary: \<open>spawnSync w cmd args\<close> is \<open>Inl message\<close> when the call
  itself throws, which the \<open>catch\<close> turns into a notice.
\<close>

definition ai_summary :: "world \<Rightarrow> config \<Rightarrow> report \<Rightarrow> string \<Rightarrow> string" where
  "ai_summary w cfg data output =
     (case spawnSync w ''gemini'' [prompt cfg data] of
        Inl message \<Rightarrow> output @ failed_heading @ message @ [nl]
      | Inr geminiResult \<Rightarrow>
          if spawn_error geminiResult \<noteq> None
          then output @ failed_heading
               @ ''Could not execute '' @ [CHR 0x27] @ ''gemini'' @ [CHR 0x27] @ '' command.'' @ [nl]
          else if stderr geminiResult \<noteq> [] \<and> stdout geminiResult = []
          then output @ failed_heading @ stderr geminiResult @ [nl]
          else ''# Standup Report (AI Summary)'' @ [nl, nl] @ stdout geminiResult
               @ [nl, nl] @ ''---'' @ [nl, nl] @ output)"

section \<open>The run\<close>

text \<open>
  What a run prints, one string for each \<open>console.log\<close>, or the exception that ends it
  (what it printed before is then dropped).
\<close>

definition scanning :: "config \<Rightarrow> string" where
  "scanning cfg =
     ''Scanning '' @ WORKSPACE cfg @ '' for activity by ''
     @ (if AUTHOR cfg \<noteq> [] then AUTHOR cfg else ''anyone'')
     @ '' over last '' @ show_int (DAYS cfg) @ '' days...''"

definition run :: "world \<Rightarrow> config \<Rightarrow> error + string list" where
  "run w cfg =
     (case build_data w cfg of
        Inl e \<Rightarrow> Inl e
      | Inr data \<Rightarrow>
          if JSON_OUTPUT cfg then Inr [JSON_stringify 2 (data_json data)]
          else (case render_markdown w cfg data of
                  Inl e \<Rightarrow> Inl e
                | Inr output \<Rightarrow>
                    Inr (chalk_blue w (scanning cfg)
                         # (if USE_AI cfg
                            then [chalk_yellow w ''Generating AI summary with Gemini...'',
                                  ai_summary w cfg data output]
                            else [output]))))"

section \<open>Example environments\<close>

text \<open>
  A workspace \<open>/w\<close> that is a repository itself, with the repositories \<open>app\<close> and \<open>lib\<close>, a
  directory \<open>broken\<close> whose log query fails, a \<open>node_modules\<close> with a marker, and a plain
  file. Notes exist for 2024-03-31 under the workspace and for 2024-03-30 under the working
  directory. The clock reads 2024-03-31 12:00 UTC, local time is UTC, and \<open>gemini\<close> is not
  installed.
\<close>

definition demo_entries :: "dirent list" where
  "demo_entries =
     [\<lparr>name = ''.git'', isDirectory = True\<rparr>,
      \<lparr>name = ''app'', isDirectory = True\<rparr>,
      \<lparr>name = ''broken'', isDirectory = True\<rparr>,
      \<lparr>name = ''lib'', isDirectory = True\<rparr>,
      \<lparr>name = ''node_modules'', isDirectory = True\<rparr>,
      \<lparr>name = ''notes.txt'', isDirectory = False\<rparr>]"

definition demo_note :: string where
  "demo_note =
     ''# Monday'' @ [nl] @ [nl] @ ''  - shipped the parser'' @ [nl] @ ''   '' @ [nl] @ ''review at 3''"

definition demo_world :: world where
  "demo_world =
     \<lparr>existsSync = (\<lambda>p. p \<in> set [''/w/.git'', ''/w/app/.git'', ''/w/broken/.git'', ''/w/lib/.git'',
                                   ''/w/node_modules/.git'', ''/w/memory/2024-03-31.md'',
                                   ''/home/me/memory/2024-03-30.md'']),
      readdirSync = (\<lambda>p. if p = ''/w'' then Inr demo_entries else Inl (SystemError ''ENOENT'')),
      readFileSync = (\<lambda>p. if p = ''/w/memory/2024-03-31.md'' then Inr demo_note
                           else if p = ''/home/me/memory/2024-03-30.md'' then Inr ''- planning''
                           else Inl (SystemError ''ENOENT'')),
      execSync = (\<lambda>dir cmd.
         if dir = ''/w/app''
           then Inr (''a1b2c3d|2024-03-30|fix parser'' @ [nl] @ ''e4f5a6b|2024-03-29|add a|b test'' @ [nl])
         else if dir = ''/w/lib''
           then Inr (''0c1d2e3|2024-03-31|release'' @ [nl] @ ''f7a8b9c|2024-03-30|bump'')
         else if dir = ''/w'' then Inr []
         else Inl (SystemError ''not a git repository'')),
      spawnSync = (\<lambda>cmd args. Inr \<lparr>spawn_error = Some ''ENOENT'', stdout = [], stderr = []\<rparr>),
      now = 1711886400000,
      utc_offset = (\<lambda>t. 0),
      local_offset = (\<lambda>t. 0),
      cwd = ''/home/me'',
      chalk_blue = (\<lambda>s. s),
      chalk_yellow = (\<lambda>s. s)\<rparr>"

definition demo_config :: config where
  "demo_config =
     \<lparr>DAYS = 3, WORKSPACE = ''/w'', USE_AI = True, JSON_OUTPUT = False, AUTHOR = ''me''\<rparr>"

definition demo_commits :: "commit list" where
  "demo_commits =
     [\<lparr>hash = Some ''0c1d2e3'', date = Some ''2024-03-31'', msg = Some ''release'', repo = ''lib''\<rparr>,
      \<lparr>hash = Some ''a1b2c3d'', date = Some ''2024-03-30'', msg = Some ''fix parser'', repo = ''app''\<rparr>,
      \<lparr>hash = Some ''f7a8b9c'', date = Some ''2024-03-30'', msg = Some ''bump'', repo = ''lib''\<rparr>,
      \<lparr>hash = Some ''e4f5a6b'', date = Some ''2024-03-29'', msg = Some ''add a'', repo = ''app''\<rparr>]"

definition demo_data :: report where
  "demo_data =
     \<lparr>range' = ''3 days'', author = ''me'',
      stats = \<lparr>reposTouched = 2, totalCommits = 4, memoryEntries = 2\<rparr>,
      commits = demo_commits,
      memory = [\<lparr>mem_date = ''2024-03-31'', content = demo_note\<rparr>,
                \<lparr>mem_date = ''2024-03-30'', content = ''- planning''\<rparr>]\<rparr>"

text \<open>The text report of that run, before the summary step.\<close>

definition demo_output :: string where
  "demo_output =
     concat (map (\<lambda>l. l @ [nl])
       [''# Standup Report (2024-03-31)'',
        [],
        ''**Range:** Last 3 days'',
        ''**Author:** me'',
        ''**Activity:** 4 commits across 2 repos.'',
        [],
        ''## '' @ hammer_and_wrench @ '' Code Activity'',
        ''### lib'',
        ''- 2024-03-31 release `(0c1d2e3)`'',
        ''- 2024-03-30 bump `(f7a8b9c)`'',
        [],
        ''### app'',
        ''- 2024-03-30 fix parser `(a1b2c3d)`'',
        ''- 2024-03-29 add a `(e4f5a6b)`'',
        [],
        ''## '' @ brain @ '' Memory Logs'',
        ''### 2024-03-31'',
        ''# Monday'',
        ''  - shipped the parser'',
        ''review at 3'',
        ''... (see file for full details)'',
        [],
        ''### 2024-03-30'',
        ''- planning'',
        ''... (see file for full details)'',
        []])"

text \<open>A note of fourteen lines, two of them blank.\<close>

definition long_note :: memory_entry where
  "long_note =
     \<lparr>mem_date = ''2024-03-31'',
      content = join [nl] [''# h'', [], ''a'', ''b'', '' '', ''c'', ''d'', ''e'', ''f'', ''g'', ''h'',
                           ''i'', ''j'', ''k'']\<rparr>"

text \<open>The same environment with a \<open>gemini\<close> that runs and writes to its two streams.\<close>

definition gemini_prints :: "string \<Rightarrow> string \<Rightarrow> world" where
  "gemini_prints out err =
     demo_world\<lparr>spawnSync := (\<lambda>cmd args. Inr \<lparr>spawn_error = None, stdout = out, stderr = err\<rparr>)\<rparr>"

text \<open>
  A workspace \<open>/w/app\<close> that is a repository and holds a repository of its own name.
\<close>

definition twin_world :: world where
  "twin_world =
     \<lparr>existsSync = (\<lambda>p. p \<in> set [''/w/app/.git'', ''/w/app/app/.git'']),
      readdirSync = (\<lambda>p. if p = ''/w/app''
                           then Inr [\<lparr>name = ''.git'', isDirectory = True\<rparr>,
                                     \<lparr>name = ''app'', isDirectory = True\<rparr>]
                           else Inl (SystemError ''ENOENT'')),
      readFileSync = (\<lambda>p. Inl (SystemError ''ENOENT'')),
      execSync = (\<lambda>dir cmd. if dir = ''/w/app'' then Inr ''a1b2c3d|2024-03-31|outer''
                             else if dir = ''/w/app/app'' then Inr ''e4f5a6b|2024-03-30|inner''
                             else Inl (SystemError ''not a git repository'')),
      spawnSync = (\<lambda>cmd args. Inr \<lparr>spawn_error = Some ''ENOENT'', stdout = [], stderr = []\<rparr>),
      now = 1711886400000,
      utc_offset = (\<lambda>t. 0),
      local_offset = (\<lambda>t. 0),
      cwd = ''/home/me'',
      chalk_blue = (\<lambda>s. s),
      chalk_yellow = (\<lambda>s. s)\<rparr>"

definition twin_config :: config where
  "twin_config =
     \<lparr>DAYS = 3, WORKSPACE = ''/w/app'', USE_AI = False, JSON_OUTPUT = True, AUTHOR = ''me''\<rparr>"

definition twin_data :: report where
  "twin_data =
     \<lparr>range' = ''3 days'', author = ''me'',
      stats = \<lparr>reposTouched = 1, totalCommits = 2, memoryEntries = 0\<rparr>,
      commits =
        [\<lparr>hash = Some ''a1b2c3d'', date = Some ''2024-03-31'', msg = Some ''outer'', repo = ''app''\<rparr>,
         \<lparr>hash = Some ''e4f5a6b'', date = Some ''2024-03-30'', msg = Some ''inner'', repo = ''app''\<rparr>],
      memory = []\<rparr>"

text \<open>
  The time zone of Berlin in 2024: summer time begins on 31 March at 01:00 UTC, when local
  time goes from 02:00 to 03:00. The clock reads 23:30 UTC of that day, 01:30 of 1 April in
  local time; the only note is that of 31 March.
\<close>

definition berlin_world :: world where
  "berlin_world =
     \<lparr>existsSync = (\<lambda>p. p = ''/w/memory/2024-03-31.md''),
      readdirSync = (\<lambda>p. Inl (SystemError ''ENOENT'')),
      readFileSync = (\<lambda>p. if p = ''/w/memory/2024-03-31.md'' then Inr ''- planning''
                           else Inl (SystemError ''ENOENT'')),
      execSync = (\<lambda>dir cmd. Inl (SystemError ''not a git repository'')),
      spawnSync = (\<lambda>cmd args. Inr \<lparr>spawn_error = Some ''ENOENT'', stdout = [], stderr = []\<rparr>),
      now = 1711927800000,
      utc_offset = (\<lambda>t. if t < 1711846800000 then 3600000 else 7200000),
      local_offset = (\<lambda>t. if t < 1711850400000 then 3600000 else 7200000),
      cwd = ''/w'',
      chalk_blue = (\<lambda>s. s),
      chalk_yellow = (\<lambda>s. s)\<rparr>"

text \<open>
  A workspace \<open>/w/app\<close>, a repository whose log query prints a line of two fields only.
\<close>

definition short_world :: world where
  "short_world = twin_world\<lparr>execSync := (\<lambda>dir cmd. if dir = ''/w/app'' then Inr ''a1b2c3d|2024-03-31''
                                                   else Inl (SystemError ''not a git repository''))\<rparr>"

definition short_commit :: commit where
  "short_commit = \<lparr>hash = Some ''a1b2c3d'', date = Some ''2024-03-31'', msg = None, repo = ''app''\<rparr>"

definition short_data :: report where
  "short_data =
     \<lparr>range' = ''3 days'', author = ''me'',
      stats = \<lparr>reposTouched = 1, totalCommits = 1, memoryEntries = 0\<rparr>,
      commits = [short_commit],
      memory = []\<rparr>"

text \<open>The demonstration environment with a \<open>gemini\<close> call that throws.\<close>

definition gemini_throws :: "string \<Rightarrow> world" where
  "gemini_throws message = demo_world\<lparr>spawnSync := (\<lambda>cmd args. Inl message)\<rparr>"


section \<open>Properties of the parser\<close>

lemma split_on_not_Nil: "split_on sep s \<noteq> []"
  by (induction s) (auto split: list.splits)

lemma split_on_no_sep: "sep \<notin> set a \<Longrightarrow> split_on sep a = [a]"
  by (induction a) auto

lemma split_on_append:
  "sep \<notin> set a \<Longrightarrow> split_on sep (a @ sep # rest) = a # split_on sep rest"
  by (induction a) auto

lemma nth_opt_simps:
  "nth_opt (x # xs) 0 = Some x"
  "nth_opt [] i = None"
  "nth_opt (x # xs) (Suc i) = nth_opt xs i"
  by (simp_all add: nth_opt_def)

text \<open>
  C10. The first separator-delimited field of a log line is the hash, the second the date
  and the third the message: a fourth field and what follows it is dropped without
  shifting the others, a line of two fields or of one leaves \<open>msg\<close>, or \<open>date\<close> and \<open>msg\<close>,
  undefined, and the hash is defined for every line. The parser is a total function: it has
  no exception to raise.
\<close>

theorem parse_line_fields:
  assumes "CHR ''|'' \<notin> set h" and "CHR ''|'' \<notin> set d" and "CHR ''|'' \<notin> set m"
  shows "parse_line p (h @ ''|'' @ d @ ''|'' @ m)
           = \<lparr>hash = Some h, date = Some d, msg = Some m, repo = path_basename p\<rparr>
       \<and> parse_line p (h @ ''|'' @ d @ ''|'' @ m @ ''|'' @ rest)
           = \<lparr>hash = Some h, date = Some d, msg = Some m, repo = path_basename p\<rparr>
       \<and> parse_line p (h @ ''|'' @ d)
           = \<lparr>hash = Some h, date = Some d, msg = None, repo = path_basename p\<rparr>
       \<and> parse_line p h
           = \<lparr>hash = Some h, date = None, msg = None, repo = path_basename p\<rparr>
       \<and> hash (parse_line p line) \<noteq> None"
proof -
  have "hash (parse_line p line) \<noteq> None"
    using split_on_not_Nil [of "CHR ''|''" line]
    by (cases "split_on (CHR ''|'') line") (simp_all add: parse_line_def nth_opt_simps)
  with assms show ?thesis
    by (simp add: parse_line_def split_on_append split_on_no_sep nth_opt_simps numeral_2_eq_2)
qed

theorem parse_line_fields_witness:
  "parse_line ''/w/app'' ''e4f5a6b|2024-03-29|add a|b test''
     = \<lparr>hash = Some ''e4f5a6b'', date = Some ''2024-03-29'', msg = Some ''add a'', repo = ''app''\<rparr>
   \<and> parse_line ''/w/app'' ''e4f5a6b|2024-03-29''
     = \<lparr>hash = Some ''e4f5a6b'', date = Some ''2024-03-29'', msg = None, repo = ''app''\<rparr>
   \<and> parse_line ''/w/app'' ''e4f5a6b''
     = \<lparr>hash = Some ''e4f5a6b'', date = None, msg = None, repo = ''app''\<rparr>"
  using parse_line_fields [of "''e4f5a6b''" "''2024-03-29''" "''add a''" "''/w/app''" "''b test''"]
  by (simp add: path_basename_def)

section \<open>Properties of the extractor and the locator\<close>

lemma collect_concat:
  "collect w days who acc rs = acc @ concat (map (\<lambda>r. getGitLogs w r days who) rs)"
  by (induction rs arbitrary: acc) (auto simp: Let_def)

text \<open>
  C5. When the log query of a repository throws, the extractor returns the empty sequence
  for it, and the loop over the repositories gives what it gives without that repository:
  the commits of the others, in order.
\<close>

theorem getGitLogs_failure:
  assumes "execSync w repoPath (git_log_command days who) = Inl e"
  shows "getGitLogs w repoPath days who = []
       \<and> collect w days who acc (before @ repoPath # after)
           = collect w days who acc (before @ after)
       \<and> collect w days who [] (before @ repoPath # after)
           = concat (map (\<lambda>r. getGitLogs w r days who) (before @ after))"
  using assms by (simp add: collect_concat getGitLogs_def)

theorem getGitLogs_failure_witness:
  "getGitLogs demo_world ''/w/broken'' 3 ''me'' = []
   \<and> collect demo_world 3 ''me'' [] [''/w/broken'', ''/w/lib'']
       = [\<lparr>hash = Some ''0c1d2e3'', date = Some ''2024-03-31'', msg = Some ''release'', repo = ''lib''\<rparr>,
          \<lparr>hash = Some ''f7a8b9c'', date = Some ''2024-03-30'', msg = Some ''bump'', repo = ''lib''\<rparr>]"
proof -
  have fails: "execSync demo_world ''/w/broken'' (git_log_command 3 ''me'')
      = Inl (SystemError ''not a git repository'')"
    by (simp add: demo_world_def)
  have ok: "getGitLogs demo_world ''/w/lib'' 3 ''me''
      = [\<lparr>hash = Some ''0c1d2e3'', date = Some ''2024-03-31'', msg = Some ''release'', repo = ''lib''\<rparr>,
         \<lparr>hash = Some ''f7a8b9c'', date = Some ''2024-03-30'', msg = Some ''bump'', repo = ''lib''\<rparr>]"
    by code_simp
  show ?thesis
    using getGitLogs_failure [OF fails, of "[]" "[''/w/lib'']"] ok by simp
qed

text \<open>
  C4. A path is located exactly when it is the root and the root holds the marker, or it
  is the root joined with the name of a listed entry that is a directory, is named neither
  \<open>.git\<close> nor \<open>node_modules\<close> and holds the marker: nothing below the first level. When the
  root cannot be listed the locator still returns, with the root alone or nothing.
\<close>

theorem getRepos_spec:
  "(p \<in> set (getRepos w dir)) =
     (p = dir \<and> existsSync w (path_join dir ''.git'')
      \<or> (\<exists>entries entry. readdirSync w dir = Inr entries \<and> entry \<in> set entries
            \<and> isDirectory entry \<and> name entry \<noteq> ''.git'' \<and> name entry \<noteq> ''node_modules''
            \<and> p = path_join dir (name entry) \<and> existsSync w (path_join p ''.git'')))
   \<and> (readdirSync w dir = Inl e \<longrightarrow>
        getRepos w dir = (if existsSync w (path_join dir ''.git'') then [dir] else []))"
proof (cases "readdirSync w dir")
  case (Inl e')
  then show ?thesis
    by (simp add: getRepos_def)
next
  case (Inr entries)
  then have "set (getRepos w dir) =
      (if existsSync w (path_join dir ''.git'') then {dir} else {})
      \<union> (\<lambda>entry. path_join dir (name entry)) ` {entry \<in> set entries. is_candidate w dir entry}"
    by (simp add: getRepos_def)
  with Inr show ?thesis
    by (auto simp: is_candidate_def)
qed

theorem getRepos_spec_witness:
  "getRepos demo_world ''/w'' = [''/w'', ''/w/app'', ''/w/broken'', ''/w/lib'']
   \<and> ''/w/node_modules'' \<notin> set (getRepos demo_world ''/w'')
   \<and> getRepos demo_world ''/w/app'' = [''/w/app'']"
proof -
  have listed: "getRepos demo_world ''/w'' = [''/w'', ''/w/app'', ''/w/broken'', ''/w/lib'']"
    by code_simp
  have unreadable: "readdirSync demo_world ''/w/app'' = Inl (SystemError ''ENOENT'')"
    by (simp add: demo_world_def)
  have marker: "existsSync demo_world (path_join ''/w/app'' ''.git'')"
    by (simp add: demo_world_def path_join_def)
  show ?thesis
    using getRepos_spec [of "''/w/node_modules''" demo_world "''/w''" "SystemError ''ENOENT''"]
      getRepos_spec [of "''/w/app''" demo_world "''/w/app''" "SystemError ''ENOENT''"]
      listed unreadable marker
    by simp
qed

section \<open>Properties of the aggregator\<close>

subsection \<open>Statistics\<close>

lemma set_foldl_Set_add: "set (foldl Set_add acc xs) = set acc \<union> set xs"
  by (induction xs arbitrary: acc) (auto simp: Set_add_def)

lemma distinct_foldl_Set_add: "distinct acc \<Longrightarrow> distinct (foldl Set_add acc xs)"
  by (induction xs arbitrary: acc) (auto simp: Set_add_def)

lemma length_new_Set: "length (new_Set xs) = card (set xs)"
proof -
  have "distinct (new_Set xs)" and "set (new_Set xs) = set xs"
    by (simp_all add: new_Set_def distinct_foldl_Set_add set_foldl_Set_add)
  then show ?thesis
    by (metis distinct_card)
qed

text \<open>
  C1. In every report a run constructs, that is, in every value of the \<open>data\<close> literal and so
  in every report \<open>build_data\<close> returns, \<open>totalCommits\<close> is the length of the commit
  sequence and \<open>reposTouched\<close> the number of distinct repository names among the commit
  records; both are 0 when there is no commit.
\<close>

theorem stats_consistent:
  assumes "data = make_data cfg allCommits memories \<or> build_data w cfg = Inr data"
  shows "totalCommits (stats data) = length (commits data)
       \<and> reposTouched (stats data) = card (repo ` set (commits data))
       \<and> (commits data = [] \<longrightarrow> totalCommits (stats data) = 0 \<and> reposTouched (stats data) = 0)"
proof -
  from assms obtain cfg' allCommits' memories' where "data = make_data cfg' allCommits' memories'"
    by (auto simp: build_data_def split: sum.splits)
  then show ?thesis
    by (simp add: make_data_def length_new_Set)
qed

theorem stats_consistent_witness:
  "build_data demo_world demo_config = Inr demo_data
   \<and> totalCommits (stats demo_data) = length (commits demo_data)
   \<and> reposTouched (stats demo_data) = card (repo ` set (commits demo_data))"
proof -
  have built: "build_data demo_world demo_config = Inr demo_data"
    by code_simp
  show ?thesis
    using stats_consistent [OF disjI2, OF built] built by simp
qed

subsection \<open>The sort\<close>







text \<open>
  Two records, the first from a log line without a date field: the comparator reads
  \<open>localeCompare\<close> of \<open>undefined\<close> and the sort, with it the run, ends in a \<open>TypeError\<close>.
\<close>

lemma sort_without_date:
  "array_sort compare_commits
     [\<lparr>hash = Some ''a1b2c3d'', date = None, msg = None, repo = ''app''\<rparr>,
      \<lparr>hash = Some ''e4f5a6b'', date = Some ''2024-03-30'', msg = Some ''bump'', repo = ''app''\<rparr>]
   = Inl TypeError"
  by (simp add: array_sort_def compare_commits_def)

subsection \<open>Repository names\<close>

lemma basename_rev:
  assumes "n \<noteq> []" and "CHR ''/'' \<notin> set n" and "rest = [] \<or> hd rest = CHR ''/''"
  shows "takeWhile (\<lambda>c. c \<noteq> CHR ''/'') (dropWhile (\<lambda>c. c = CHR ''/'') (rev n @ rest)) = rev n"
proof -
  have "rev n \<noteq> []" and "hd (rev n) \<noteq> CHR ''/''"
    using assms(1,2) by (simp_all add: hd_rev) (metis last_in_set)
  then have "dropWhile (\<lambda>c. c = CHR ''/'') (rev n @ rest) = rev n @ rest"
    by (cases "rev n") simp_all
  moreover have "takeWhile (\<lambda>c. c \<noteq> CHR ''/'') (rev n @ rest) = rev n"
    using assms(2,3) by (cases rest) (auto simp: takeWhile_tail)
  ultimately show ?thesis
    by simp
qed

lemma path_basename_join: "segment n \<Longrightarrow> path_basename (path_join dir n) = n"
proof -
  assume n: "segment n"
  consider "dir = []" | "dir \<noteq> []" "last dir = CHR ''/''" | "dir \<noteq> []" "last dir \<noteq> CHR ''/''"
    by blast
  then show ?thesis
  proof cases
    case 1
    then show ?thesis
      using basename_rev [of n "[]"] n by (simp add: path_basename_def path_join_def segment_def)
  next
    case 2
    then have "hd (rev dir) = CHR ''/''"
      by (simp add: hd_rev)
    then show ?thesis
      using 2 basename_rev [of n "rev dir"] n
      by (simp add: path_basename_def path_join_def segment_def)
  next
    case 3
    then show ?thesis
      using basename_rev [of n "CHR ''/'' # rev dir"] n
      by (simp add: path_basename_def path_join_def segment_def)
  qed
qed

lemma set_getRepos:
  "set (getRepos w dir) =
     (if existsSync w (path_join dir ''.git'') then {dir} else {})
     \<union> (case readdirSync w dir of
          Inl e \<Rightarrow> {}
        | Inr entries \<Rightarrow>
            (\<lambda>entry. path_join dir (name entry)) ` {entry \<in> set entries. is_candidate w dir entry})"
  by (cases "readdirSync w dir") (simp_all add: getRepos_def)

lemma getGitLogs_repo: "c \<in> set (getGitLogs w r days who) \<Longrightarrow> repo c = path_basename r"
  by (auto simp: getGitLogs_def parse_line_def Let_def split: sum.splits if_splits)

lemma insert_sorted_set: "insert_sorted cmp x ys = Inr zs \<Longrightarrow> set zs = insert x (set ys)"
proof (induction ys arbitrary: zs)
  case Nil
  then show ?case by auto
next
  case (Cons y ys)
  from Cons.prems obtain order where order: "cmp x y = Inr order"
    by (cases "cmp x y") simp_all
  show ?case
  proof (cases "order < 0")
    case True
    with Cons.prems order show ?thesis by auto
  next
    case False
    with Cons.prems order obtain zs' where "insert_sorted cmp x ys = Inr zs'" "zs = y # zs'"
      by (cases "insert_sorted cmp x ys") auto
    with Cons.IH show ?thesis by auto
  qed
qed

lemma sort_loop_set: "sort_loop cmp done xs = Inr zs \<Longrightarrow> set zs = set done \<union> set xs"
proof (induction xs arbitrary: "done")
  case Nil
  then show ?case by simp
next
  case (Cons x xs)
  from Cons.prems obtain ys where ys: "insert_sorted cmp x done = Inr ys" "sort_loop cmp ys xs = Inr zs"
    by (cases "insert_sorted cmp x done") auto
  with Cons.IH insert_sorted_set [OF ys(1)] show ?case
    by auto
qed

lemma commits_build_data:
  assumes "build_data w cfg = Inr data"
  shows "set (commits data) = set (all_commits w cfg)"
proof -
  from assms obtain zs memories where "sort_loop compare_commits [] (all_commits w cfg) = Inr zs"
    "data = make_data cfg zs memories"
    by (auto simp: build_data_def array_sort_def split: sum.splits)
  then show ?thesis
    using sort_loop_set by (fastforce simp: make_data_def)
qed

text \<open>
  C8, as the code has it. The repository name of every commit record of a report is the
  base name of a located repository. Two located repositories have the same base name only
  if one of them is the root: the located subdirectories are named apart, but the root can
  be named like one of them.
\<close>

theorem repo_names_located:
  assumes "\<forall>entries. readdirSync w (WORKSPACE cfg) = Inr entries \<longrightarrow>
             list_all (\<lambda>entry. segment (name entry)) entries"
  shows "(\<forall>c\<in>set (all_commits w cfg). \<exists>p\<in>set (getRepos w (WORKSPACE cfg)). repo c = path_basename p)
       \<and> (build_data w cfg = Inr data \<longrightarrow> set (commits data) = set (all_commits w cfg))
       \<and> (\<forall>p\<in>set (getRepos w (WORKSPACE cfg)). \<forall>q\<in>set (getRepos w (WORKSPACE cfg)).
             path_basename p = path_basename q \<longrightarrow> p = q \<or> p = WORKSPACE cfg \<or> q = WORKSPACE cfg)"
proof -
  let ?dir = "WORKSPACE cfg"
  have located: "\<exists>p\<in>set (getRepos w ?dir). repo c = path_basename p" if "c \<in> set (all_commits w cfg)" for c
  proof -
    from that obtain r where "r \<in> set (getRepos w ?dir)" "c \<in> set (getGitLogs w r (DAYS cfg) (AUTHOR cfg))"
      by (auto simp: all_commits_def collect_concat)
    then show ?thesis
      using getGitLogs_repo by blast
  qed
  have child: "\<exists>n. p = path_join ?dir n \<and> segment n" if "p \<in> set (getRepos w ?dir)" "p \<noteq> ?dir" for p
    using that assms by (auto simp: set_getRepos list_all_iff split: sum.splits if_splits)
  have apart: "p = q" if "p \<in> set (getRepos w ?dir)" "q \<in> set (getRepos w ?dir)"
    "path_basename p = path_basename q" "p \<noteq> ?dir" "q \<noteq> ?dir" for p q
  proof -
    from child that obtain n m where "p = path_join ?dir n" "segment n" "q = path_join ?dir m" "segment m"
      by blast
    with that(3) show ?thesis
      by (simp add: path_basename_join)
  qed
  show ?thesis
  proof (intro conjI ballI impI)
    fix c
    assume "c \<in> set (all_commits w cfg)"
    then show "\<exists>p\<in>set (getRepos w ?dir). repo c = path_basename p"
      by (rule located)
  next
    assume "build_data w cfg = Inr data"
    then show "set (commits data) = set (all_commits w cfg)"
      by (rule commits_build_data)
  next
    fix p q
    assume "p \<in> set (getRepos w ?dir)" "q \<in> set (getRepos w ?dir)"
      "path_basename p = path_basename q"
    then show "p = q \<or> p = ?dir \<or> q = ?dir"
      using apart by blast
  qed
qed

theorem repo_names_located_witness:
  "set (commits demo_data) = set (all_commits demo_world demo_config)
   \<and> (\<exists>p\<in>set (getRepos demo_world ''/w''). ''lib'' = path_basename p)
   \<and> map path_basename (getRepos demo_world ''/w'') = [''w'', ''app'', ''broken'', ''lib'']"
proof -
  have built: "build_data demo_world demo_config = Inr demo_data"
    by code_simp
  have collected: "all_commits demo_world demo_config
      = [\<lparr>hash = Some ''a1b2c3d'', date = Some ''2024-03-30'', msg = Some ''fix parser'', repo = ''app''\<rparr>,
         \<lparr>hash = Some ''e4f5a6b'', date = Some ''2024-03-29'', msg = Some ''add a'', repo = ''app''\<rparr>,
         \<lparr>hash = Some ''0c1d2e3'', date = Some ''2024-03-31'', msg = Some ''release'', repo = ''lib''\<rparr>,
         \<lparr>hash = Some ''f7a8b9c'', date = Some ''2024-03-30'', msg = Some ''bump'', repo = ''lib''\<rparr>]"
    by code_simp
  have names: "\<forall>entries. readdirSync demo_world (WORKSPACE demo_config) = Inr entries \<longrightarrow>
      list_all (\<lambda>entry. segment (name entry)) entries"
    by (simp add: demo_world_def demo_config_def demo_entries_def segment_def)
  have ws: "WORKSPACE demo_config = ''/w''"
    by (simp add: demo_config_def)
  have "map path_basename (getRepos demo_world ''/w'') = [''w'', ''app'', ''broken'', ''lib'']"
    by code_simp
  then show ?thesis
    using repo_names_located [OF names, of demo_data] built collected ws by simp
qed

text \<open>
  C8, as stated, fails: the root \<open>/w/app\<close> and its subdirectory \<open>/w/app/app\<close> are both
  located, both contribute a commit, and the name \<open>app\<close> of those commits is the base name
  of both.
\<close>

theorem repo_name_shared_counterexample:
  "getRepos twin_world (WORKSPACE twin_config) = [''/w/app'', ''/w/app/app'']
   \<and> build_data twin_world twin_config = Inr twin_data
   \<and> map repo (commits twin_data) = [''app'', ''app'']
   \<and> path_basename ''/w/app'' = ''app''
   \<and> path_basename ''/w/app/app'' = ''app''"
  by code_simp

section \<open>Properties of the note reader\<close>

lemma memory_loop_entries:
  "memory_loop w ws acc indices = Inr ms \<Longrightarrow>
     ms = acc @ map (\<lambda>i. \<lparr>mem_date = dateStr w i,
                           content = (case readFileSync w (targetMemPath w ws (dateStr w i)) of
                                        Inl e \<Rightarrow> [] | Inr text \<Rightarrow> text)\<rparr>)
                  (filter (\<lambda>i. existsSync w (targetMemPath w ws (dateStr w i))) indices)"
proof (induction indices arbitrary: acc)
  case Nil
  then show ?case by simp
next
  case (Cons i rest)
  show ?case
  proof (cases "existsSync w (targetMemPath w ws (dateStr w i))")
    case False
    with Cons show ?thesis by (simp add: Let_def)
  next
    case True
    with Cons.prems obtain body where body: "readFileSync w (targetMemPath w ws (dateStr w i)) = Inr body"
      by (cases "readFileSync w (targetMemPath w ws (dateStr w i))") (simp_all add: Let_def)
    with True Cons.prems have "memory_loop w ws (acc @ [\<lparr>mem_date = dateStr w i, content = body\<rparr>]) rest = Inr ms"
      by (simp add: Let_def)
    from Cons.IH [OF this] True body show ?thesis
      by simp
  qed
qed

lemma getMemoryLogs_at_most:
  assumes "getMemoryLogs w ws days = Inr ms"
  shows "length ms \<le> nat days"
proof -
  have "length ms \<le> length [0..days - 1]"
    using memory_loop_entries [of w ws "[]" "[0..days - 1]" ms] assms
    by (metis (no_types, lifting) getMemoryLogs_def append_Nil length_filter_le length_map)
  then show ?thesis
    by simp
qed

text \<open>
  C6. With the clock at 01:30 local time on the night after summer time began, the first
  two iterations of the note reader give the same date string: the day is subtracted in
  local time and formatted in UTC. The note of 31 March is entered twice, and the local
  date, 1 April, is not looked for.
\<close>

theorem getMemoryLogs_repeats_date:
  "toISOString (now berlin_world) = ''2024-03-31T23:30:00.000Z''
   \<and> toISOString (LocalTime berlin_world (now berlin_world)) = ''2024-04-01T01:30:00.000Z''
   \<and> map (dateStr berlin_world) [0, 1] = [''2024-03-31'', ''2024-03-31'']
   \<and> getMemoryLogs berlin_world ''/w'' 2
       = Inr [\<lparr>mem_date = ''2024-03-31'', content = ''- planning''\<rparr>,
              \<lparr>mem_date = ''2024-03-31'', content = ''- planning''\<rparr>]"
  by code_simp

section \<open>Properties of the text output\<close>

text \<open>
  A repository directory named like a property of \<open>Object.prototype\<close>: the grouping of the
  text output finds the inherited property instead of a list, and ends in a \<open>TypeError\<close>.
\<close>

lemma grouping_inherited_name:
  "code_activity [\<lparr>hash = Some ''a1b2c3d'', date = Some ''2024-03-30'', msg = Some ''bump'',
                    repo = ''constructor''\<rparr>]
   = Inl TypeError"
  by (simp add: code_activity_def byRepo_push_def object_prototype_keys_def)

lemma split_on_no_sep_inside: "x \<in> set (split_on sep s) \<Longrightarrow> sep \<notin> set x"
  by (induction s arbitrary: x) (auto split: if_splits list.splits)

lemma split_on_join:
  "xs \<noteq> [] \<Longrightarrow> \<forall>x\<in>set xs. sep \<notin> set x \<Longrightarrow> split_on sep (join [sep] xs) = xs"
proof (induction "[sep]" xs rule: join.induct)
  case 1
  then show ?case by simp
next
  case (2 x)
  then show ?case by (simp add: split_on_no_sep)
next
  case (3 x y ys)
  then show ?case
    using split_on_append [of sep x "join [sep] (y # ys)"] by simp
qed

text \<open>
  C9. The subsection of a note is its heading, the digest and the fixed notice line. The
  digest is the first ten of the lines of the content that are non-empty after trimming
  or start with \<open>#\<close> or, trimmed, with \<open>-\<close>, in their order and joined by line feeds: read
  as lines it is exactly those lines, so no later line is in it.
\<close>

theorem memory_section_digest:
  assumes "kept = take 10 (filter (\<lambda>l. trim l \<noteq> [] \<or> startsWith l ''#'' \<or> startsWith (trim l) ''-'')
                            (split_on nl (content m)))"
  shows "memory_section m
           = ''### '' @ mem_date m @ [nl] @ summary (content m) @ [nl]
             @ ''... (see file for full details)'' @ [nl, nl]
       \<and> summary (content m) = join [nl] kept
       \<and> (if kept = [] then summary (content m) = [] else split_on nl (summary (content m)) = kept)
       \<and> length kept \<le> 10
       \<and> memory_logs (before @ m # after)
           = concat (map memory_section before) @ memory_section m
             @ concat (map memory_section after)"
proof -
  have same: "(\<lambda>l. trim l \<noteq> [] \<or> startsWith l ''#'' \<or> startsWith (trim l) ''-'') = interesting"
    by (auto simp: interesting_def fun_eq_iff)
  have digest: "summary (content m) = join [nl] kept"
    unfolding summary_def assms same ..
  have "\<forall>x\<in>set kept. nl \<notin> set x"
    unfolding assms by (auto dest!: in_set_takeD dest: split_on_no_sep_inside)
  then have "kept \<noteq> [] \<Longrightarrow> split_on nl (join [nl] kept) = kept"
    by (simp add: split_on_join)
  with digest show ?thesis
    by (auto simp: memory_section_def memory_logs_def assms)
qed

theorem memory_section_digest_witness:
  "memory_section long_note
     = ''### 2024-03-31'' @ [nl]
       @ join [nl] [''# h'', ''a'', ''b'', ''c'', ''d'', ''e'', ''f'', ''g'', ''h'', ''i'']
       @ [nl] @ ''... (see file for full details)'' @ [nl, nl]
   \<and> split_on nl (summary (content long_note))
       = [''# h'', ''a'', ''b'', ''c'', ''d'', ''e'', ''f'', ''g'', ''h'', ''i'']"
proof -
  have kept: "[''# h'', ''a'', ''b'', ''c'', ''d'', ''e'', ''f'', ''g'', ''h'', ''i'']
      = take 10 (filter (\<lambda>l. trim l \<noteq> [] \<or> startsWith l ''#'' \<or> startsWith (trim l) ''-'')
                   (split_on nl (content long_note)))"
    by code_simp
  have d: "mem_date long_note = ''2024-03-31''"
    by (simp add: long_note_def)
  show ?thesis
    using memory_section_digest [OF kept] d by (simp add: nl_def)
qed

text \<open>
  C7. When the call of the summarizer throws, cannot start the process, or gives error
  output and no standard output, the unchanged report is followed by a notice: a blank
  line, the heading \<open>## \<close>, the warning sign (U+26A0 U+FE0F) and \<open> AI Summary Failed\<close>,
  then a line with the message of the exception, the fixed sentence that \<open>gemini\<close> could
  not be executed, or the error output. Otherwise the title \<open># Standup Report (AI Summary)\<close>,
  the narrative and a divider line \<open>---\<close> are put in front of the unchanged report.
  Whatever the call does, a text-mode run that has rendered its report prints it.
\<close>

theorem ai_summary_cases:
  "(spawnSync w ''gemini'' [prompt cfg data] = Inl message \<longrightarrow>
      ai_summary w cfg data output
        = output
          @ [CHR 0x0A] @ ''## '' @ [CHR 0xE2, CHR 0x9A, CHR 0xA0, CHR 0xEF, CHR 0xB8, CHR 0x8F]
          @ '' AI Summary Failed'' @ [CHR 0x0A]
          @ message @ [CHR 0x0A])
   \<and> (spawnSync w ''gemini'' [prompt cfg data] = Inr r \<and> spawn_error r \<noteq> None \<longrightarrow>
      ai_summary w cfg data output
        = output
          @ [CHR 0x0A] @ ''## '' @ [CHR 0xE2, CHR 0x9A, CHR 0xA0, CHR 0xEF, CHR 0xB8, CHR 0x8F]
          @ '' AI Summary Failed'' @ [CHR 0x0A]
          @ ''Could not execute '' @ [CHR 0x27] @ ''gemini'' @ [CHR 0x27] @ '' command.''
          @ [CHR 0x0A])
   \<and> (spawnSync w ''gemini'' [prompt cfg data] = Inr r \<and> spawn_error r = None
        \<and> stderr r \<noteq> [] \<and> stdout r = [] \<longrightarrow>
      ai_summary w cfg data output
        = output
          @ [CHR 0x0A] @ ''## '' @ [CHR 0xE2, CHR 0x9A, CHR 0xA0, CHR 0xEF, CHR 0xB8, CHR 0x8F]
          @ '' AI Summary Failed'' @ [CHR 0x0A]
          @ stderr r @ [CHR 0x0A])
   \<and> (spawnSync w ''gemini'' [prompt cfg data] = Inr r \<and> spawn_error r = None
        \<and> \<not> (stderr r \<noteq> [] \<and> stdout r = []) \<longrightarrow>
      ai_summary w cfg data output
        = ''# Standup Report (AI Summary)'' @ [CHR 0x0A, CHR 0x0A] @ stdout r
          @ [CHR 0x0A, CHR 0x0A] @ ''---'' @ [CHR 0x0A, CHR 0x0A] @ output)
   \<and> (build_data w cfg = Inr data \<and> render_markdown w cfg data = Inr output
        \<and> \<not> JSON_OUTPUT cfg \<and> USE_AI cfg \<longrightarrow>
      run w cfg = Inr [chalk_blue w (scanning cfg),
                       chalk_yellow w ''Generating AI summary with Gemini...'',
                       ai_summary w cfg data output])"
  by (auto simp: ai_summary_def run_def failed_heading_def warning_sign_def nl_def)

theorem ai_summary_cases_witness:
  "run demo_world demo_config
     = Inr [''Scanning /w for activity by me over last 3 days...'',
            ''Generating AI summary with Gemini...'',
            demo_output
            @ [CHR 0x0A] @ ''## '' @ [CHR 0xE2, CHR 0x9A, CHR 0xA0, CHR 0xEF, CHR 0xB8, CHR 0x8F]
          @ '' AI Summary Failed'' @ [CHR 0x0A]
            @ ''Could not execute '' @ [CHR 0x27] @ ''gemini'' @ [CHR 0x27] @ '' command.''
            @ [CHR 0x0A]]
   \<and> ai_summary (gemini_throws []) demo_config demo_data demo_output
       = demo_output
         @ [CHR 0x0A] @ ''## '' @ [CHR 0xE2, CHR 0x9A, CHR 0xA0, CHR 0xEF, CHR 0xB8, CHR 0x8F]
          @ '' AI Summary Failed'' @ [CHR 0x0A]
         @ [CHR 0x0A]
   \<and> ai_summary (gemini_prints [] ''quota exceeded'') demo_config demo_data demo_output
       = demo_output
         @ [CHR 0x0A] @ ''## '' @ [CHR 0xE2, CHR 0x9A, CHR 0xA0, CHR 0xEF, CHR 0xB8, CHR 0x8F]
          @ '' AI Summary Failed'' @ [CHR 0x0A]
         @ ''quota exceeded'' @ [CHR 0x0A]
   \<and> ai_summary (gemini_prints ''Shipped the parser.'' []) demo_config demo_data demo_output
       = ''# Standup Report (AI Summary)'' @ [CHR 0x0A, CHR 0x0A] @ ''Shipped the parser.''
         @ [CHR 0x0A, CHR 0x0A] @ ''---'' @ [CHR 0x0A, CHR 0x0A] @ demo_output"
proof -
  have built: "build_data demo_world demo_config = Inr demo_data"
    by code_simp
  have rendered: "render_markdown demo_world demo_config demo_data = Inr demo_output"
    by code_simp
  have scan: "scanning demo_config = ''Scanning /w for activity by me over last 3 days...''"
    by code_simp
  have no_gemini: "spawnSync demo_world ''gemini'' [prompt demo_config demo_data]
      = Inr \<lparr>spawn_error = Some ''ENOENT'', stdout = [], stderr = []\<rparr>"
    by (simp add: demo_world_def)
  have failing: "spawnSync (gemini_prints [] ''quota exceeded'') ''gemini'' [prompt demo_config demo_data]
      = Inr \<lparr>spawn_error = None, stdout = [], stderr = ''quota exceeded''\<rparr>"
    by (simp add: gemini_prints_def)
  have answering: "spawnSync (gemini_prints ''Shipped the parser.'' []) ''gemini'' [prompt demo_config demo_data]
      = Inr \<lparr>spawn_error = None, stdout = ''Shipped the parser.'', stderr = []\<rparr>"
    by (simp add: gemini_prints_def)
  have thrown: "spawnSync (gemini_throws []) ''gemini'' [prompt demo_config demo_data] = Inl []"
    by (simp add: gemini_throws_def)
  have flags: "\<not> JSON_OUTPUT demo_config" "USE_AI demo_config"
    by (simp_all add: demo_config_def)
  have colours: "chalk_blue demo_world = (\<lambda>s. s)" "chalk_yellow demo_world = (\<lambda>s. s)"
    by (simp_all add: demo_world_def)
  show ?thesis
    using ai_summary_cases [of demo_world demo_config demo_data "[]" demo_output
        "\<lparr>spawn_error = Some ''ENOENT'', stdout = [], stderr = []\<rparr>"]
      ai_summary_cases [of "gemini_prints [] ''quota exceeded''" demo_config demo_data "[]"
        demo_output "\<lparr>spawn_error = None, stdout = [], stderr = ''quota exceeded''\<rparr>"]
      ai_summary_cases [of "gemini_prints ''Shipped the parser.'' []" demo_config demo_data
        "[]" demo_output "\<lparr>spawn_error = None, stdout = ''Shipped the parser.'', stderr = []\<rparr>"]
      ai_summary_cases [of "gemini_throws []" demo_config demo_data "[]" demo_output]
      built rendered scan no_gemini failing answering thrown flags colours
    by simp
qed

section \<open>Properties of the structured output\<close>

subsection \<open>Reading a report back from its document\<close>

lemma read_all_inverse: "(\<And>x. f (g x) = Some x) \<Longrightarrow> read_all f (map g xs) = Some xs"
  by (simp add: read_all_def list_all_iff map_idI)

lemma read_commit_json: "read_commit (commit_json c) = Some c"
  by (cases "hash c"; cases "date c"; cases "msg c")
     (simp_all add: read_commit_def commit_json_def member_def as_string_def property_def)

lemma read_memory_json: "read_memory (memory_json m) = Some m"
  by (simp add: read_memory_def memory_json_def member_def as_string_def)

lemma read_stats_json: "read_stats (stats_json st) = Some st"
  by (simp add: read_stats_def stats_json_def member_def as_count_def)

lemma read_data_json: "read_data (data_json d) = Some d"
  by (simp add: read_data_def data_json_def member_def as_string_def as_array_def
      read_stats_json read_all_inverse read_commit_json read_memory_json)

subsection \<open>Strings: unescaping undoes escaping\<close>

lemma below_16: "n < 16 \<Longrightarrow> n \<in> set [0, 1, 2, 3, 4, 5, 6, 7, 8, 9, 10, 11, 12, 13, 14, 15 :: nat]"
  by simp arith

lemma below_10: "n < 10 \<Longrightarrow> n \<in> set [0, 1, 2, 3, 4, 5, 6, 7, 8, 9 :: nat]"
  by simp arith

lemma hex_value_digit: "n < 16 \<Longrightarrow> hex_value (hex_digit n) = Some n"
  by (drule below_16) (auto simp: hex_value_def hex_digit_def is_digit_def)

lemma digit_char_props:
  "n < 10 \<Longrightarrow> is_digit (digit_char n) \<and> of_char (digit_char n) - 48 = n
     \<and> (digit_char n = CHR ''0'' \<longrightarrow> n = 0)"
  by (drule below_10) (auto simp: digit_char_def is_digit_def)

lemma unicode_escape_control:
  assumes "of_char c < (32 :: nat)"
  shows "unicode_escape (CHR ''0'') (CHR ''0'') (hex_digit (of_char c div 16)) (hex_digit (of_char c mod 16))
         = Some c"
proof -
  let ?n = "of_char c :: nat"
  have "?n div 16 < 16" "?n mod 16 < 16"
    using assms by simp_all
  then have "hex_value (hex_digit (?n div 16)) = Some (?n div 16)"
    "hex_value (hex_digit (?n mod 16)) = Some (?n mod 16)"
    by (simp_all add: hex_value_digit)
  moreover have "hex_value (CHR ''0'') = Some 0"
    by (simp add: hex_value_def is_digit_def)
  moreover have "?n div 16 * 16 + ?n mod 16 = ?n"
    by simp
  moreover have "?n < 128"
    using assms by simp
  ultimately show ?thesis
    by (simp add: unicode_escape_def)
qed

lemma control_not_special: "of_char c < (32 :: nat) \<Longrightarrow> c \<noteq> dquote \<and> c \<noteq> backslash"
  by (auto simp: dquote_def backslash_def)

lemma escape_control:
  assumes "of_char c < (32 :: nat)" "c \<noteq> CHR 0x08" "c \<noteq> CHR 0x09" "c \<noteq> CHR 0x0A" "c \<noteq> CHR 0x0C" "c \<noteq> CHR 0x0D"
  shows "escape c = [backslash, CHR ''u'', CHR ''0'', CHR ''0'',
      hex_digit (of_char c div 16), hex_digit (of_char c mod 16)]"
  using assms control_not_special [of c] by (simp add: escape_def)

lemma parse_chars_escape: "parse_chars (escape c @ tail) = cons_chars c (parse_chars tail)"
proof -
  consider "c = CHR 0x08" | "c = CHR 0x09" | "c = CHR 0x0A" | "c = CHR 0x0C" | "c = CHR 0x0D"
    | "c = dquote" | "c = backslash"
    | "of_char c < (32 :: nat)" "c \<noteq> CHR 0x08" "c \<noteq> CHR 0x09" "c \<noteq> CHR 0x0A" "c \<noteq> CHR 0x0C" "c \<noteq> CHR 0x0D"
    | "\<not> of_char c < (32 :: nat)" "c \<noteq> dquote" "c \<noteq> backslash"
    by blast
  then show ?thesis
  proof cases
    case 8
    then show ?thesis
      using control_not_special [of c]
      by (simp add: escape_control unicode_escape_control backslash_def dquote_def)
  next
    case 9
    then have "escape c = [c]"
      by (auto simp: escape_def)
    with 9 show ?thesis
      by simp
  qed (simp_all add: escape_def simple_escape_def dquote_def backslash_def)
qed


lemma parse_chars_quoted:
  "parse_chars (concat (map escape s) @ dquote # rest) = Some (s, rest)"
  by (induction s) (simp_all add: parse_chars_escape cons_chars_def)

subsection \<open>Numbers: the digits printed are the digits read\<close>

lemma show_nat_not_Nil: "show_nat n \<noteq> []"
  by (subst show_nat.simps) simp

lemma show_nat_digits: "list_all is_digit (show_nat n)"
proof (induction n rule: show_nat.induct)
  case (1 n)
  then show ?case
    by (subst show_nat.simps) (simp add: digit_char_props)
qed

lemma show_nat_value: "foldl (\<lambda>a c. 10 * a + (of_char c - 48)) 0 (show_nat n) = n"
proof (induction n rule: show_nat.induct)
  case (1 n)
  then show ?case
    by (subst show_nat.simps) (simp add: digit_char_props)
qed

lemma show_nat_leading_zero: "hd (show_nat n) = CHR ''0'' \<Longrightarrow> n = 0"
proof (induction n rule: show_nat.induct)
  case (1 n)
  show ?case
  proof (cases "n < 10")
    case True
    with "1.prems" show ?thesis
      by (subst (asm) show_nat.simps) (simp add: digit_char_props)
  next
    case False
    with "1.prems" have "hd (show_nat (n div 10)) = CHR ''0''"
      by (subst (asm) show_nat.simps) (simp add: show_nat_not_Nil)
    with "1.IH" False have "n div 10 = 0"
      by simp
    with False show ?thesis
      by simp
  qed
qed

lemma parse_digits_all:
  "list_all is_digit ds \<Longrightarrow> rest = [] \<or> \<not> is_digit (hd rest) \<Longrightarrow>
     parse_digits acc (ds @ rest) = (foldl (\<lambda>a c. 10 * a + (of_char c - 48)) acc ds, rest)"
proof (induction ds arbitrary: acc)
  case Nil
  then show ?case
    by (cases rest) (auto simp: digit_value_def)
next
  case (Cons d ds)
  then show ?case
    by (simp add: digit_value_def)
qed

lemma parse_number_signed:
  assumes "delimited rest"
  shows "parse_number ((if neg then ''-'' else []) @ show_nat n @ rest)
         = Some (JNumber (if neg then - int n else int n), rest)"
proof -
  obtain c cs where c: "show_nat n = c # cs"
    using show_nat_not_Nil by (cases "show_nat n") auto
  have digits: "list_all is_digit (c # cs)"
    using show_nat_digits [of n] c by simp
  have rest: "rest = [] \<or> \<not> is_digit (hd rest)" "\<not> (rest \<noteq> [] \<and> hd rest \<in> set ''.eE'')"
    using assms by (auto simp: delimited_def is_digit_def)
  have zero: "cs = []" if "c = CHR ''0''"
  proof -
    have "n = 0"
      using show_nat_leading_zero [of n] c that by simp
    then have "show_nat n = [digit_char 0]"
      by (subst show_nat.simps) simp
    with c show ?thesis
      by simp
  qed
  have first: "c \<noteq> CHR ''-''" "is_digit c"
    using digits by (auto simp: is_digit_def)
  have parsed: "parse_digits 0 (c # cs @ rest) = (n, rest)"
    using parse_digits_all [OF digits rest(1), of 0] show_nat_value [of n] c by simp
  have follow: "\<not> (c = CHR ''0'' \<and> cs @ rest \<noteq> [] \<and> is_digit (hd (cs @ rest)))"
    using zero rest(1) by auto
  show ?thesis
  proof (cases neg)
    case True
    then show ?thesis
      using c first parsed follow rest(2) by (simp add: parse_number_def)
  next
    case False
    then show ?thesis
      using c first parsed follow rest(2) by (simp add: parse_number_def)
  qed
qed

lemma parse_number_show_int:
  assumes "delimited rest"
  shows "parse_number (show_int i @ rest) = Some (JNumber i, rest)"
  using parse_number_signed [OF assms, of "i < 0" "nat \<bar>i\<bar>"]
  by (auto simp: show_int_def)

subsection \<open>Values: parsing undoes serialising, for every gap\<close>

lemma value_start_not_ws: "value_start c \<Longrightarrow> \<not> is_json_ws c \<and> c \<noteq> CHR '']'' \<and> c \<noteq> CHR ''}''"
  by (auto simp: value_start_def is_json_ws_def dquote_def is_digit_def)

lemma skip_ws_append: "ws_string w \<Longrightarrow> skip_ws (w @ s) = skip_ws s"
  by (simp add: ws_string_def skip_ws_def dropWhile_append list_all_iff)

lemma skip_ws_Cons: "\<not> is_json_ws c \<Longrightarrow> skip_ws (c # s) = c # s"
  by (simp add: skip_ws_def)

lemma show_int_start: "\<exists>c cs. show_int i = c # cs \<and> value_start c"
proof -
  let ?n = "nat (if i < 0 then - i else i)"
  obtain c cs where c: "show_nat ?n = c # cs"
    using show_nat_not_Nil by (cases "show_nat ?n") auto
  then have "is_digit c"
    using show_nat_digits [of ?n] by simp
  with c show ?thesis
    by (auto simp: show_int_def value_start_def)
qed

lemma stringify_start: "\<exists>c cs. stringify gap ind v = c # cs \<and> value_start c"
proof (cases v)
  case (JNumber i)
  then show ?thesis
    using show_int_start [of i] by simp
qed (auto simp: QuoteJSONString_def value_start_def wrap_def)

lemma join_Cons: "ys \<noteq> [] \<Longrightarrow> join sep (x # ys) = x @ sep @ join sep ys"
  by (cases ys) simp_all

lemma wrap_shape:
  assumes "ws_string gap" and "ws_string ind"
  shows "\<exists>pre sw tail. ws_string pre \<and> ws_string sw \<and> ws_string tail
           \<and> (tail = [] \<or> hd tail = CHR 0x0A)
           \<and> (\<forall>opening parts closing. wrap gap ind opening parts closing
                 = opening @ pre @ join (CHR '','' # sw) parts @ tail @ closing)"
proof (cases "gap = []")
  case True
  then have "\<forall>opening parts closing. wrap gap ind opening parts closing
      = opening @ [] @ join (CHR '','' # []) parts @ [] @ closing"
    by (simp add: wrap_def)
  moreover have "ws_string []"
    by (simp add: ws_string_def)
  ultimately show ?thesis
    by blast
next
  case False
  let ?pre = "[nl] @ ind @ gap" and ?tail = "[nl] @ ind"
  have "\<forall>opening parts closing. wrap gap ind opening parts closing
      = opening @ ?pre @ join (CHR '','' # ?pre) parts @ ?tail @ closing"
    using False by (simp add: wrap_def)
  moreover have "ws_string ?pre" "ws_string ?tail" "hd ?tail = CHR 0x0A"
    using assms by (simp_all add: ws_string_def nl_def is_json_ws_def)
  ultimately show ?thesis
    by blast
qed

lemma delimited_simps:
  "delimited []" "delimited (CHR '','' # s)" "delimited (CHR '']'' # s)" "delimited (CHR ''}'' # s)"
  "delimited (CHR 0x0A # s)"
  by (simp_all add: delimited_def)

lemma delimited_tail:
  "tail = [] \<or> hd tail = CHR 0x0A \<Longrightarrow> delimited (c # s) \<Longrightarrow> delimited (tail @ c # s)"
  by (cases tail) (auto simp: delimited_def)

lemma parse_elements_join:
  assumes "xs \<noteq> []"
    and "\<forall>x\<in>set xs. \<forall>fuel rest. delimited rest \<longrightarrow> length (S x) < fuel \<longrightarrow>
           parse_value fuel (S x @ rest) = Some (x, rest)"
    and "\<forall>x. \<exists>c cs. S x = c # cs \<and> value_start c"
    and "ws_string sw" and "ws_string tail" and "tail = [] \<or> hd tail = CHR 0x0A"
    and "length (join (CHR '','' # sw) (map S xs)) + 1 < fuel"
  shows "parse_elements fuel (join (CHR '','' # sw) (map S xs) @ tail @ CHR '']'' # rest)
         = Some (xs, rest)"
  using assms
proof (induction xs arbitrary: fuel rule: list_nonempty_induct)
  case (single x)
  then obtain f where f: "fuel = Suc f" "length (S x) < f"
    by (cases fuel) auto
  have "delimited (tail @ CHR '']'' # rest)"
    using single.prems(5) by (simp add: delimited_tail delimited_simps)
  with single.prems f have "parse_value f (S x @ tail @ CHR '']'' # rest) = Some (x, tail @ CHR '']'' # rest)"
    by simp
  moreover have "skip_ws (tail @ CHR '']'' # rest) = CHR '']'' # rest"
    using single.prems(4) by (simp add: skip_ws_append skip_ws_Cons is_json_ws_def)
  ultimately show ?case
    using f by simp
next
  case (cons x xs)
  let ?sep = "CHR '','' # sw"
  let ?after = "join ?sep (map S xs) @ tail @ CHR '']'' # rest"
  have joined: "join ?sep (map S (x # xs)) = S x @ ?sep @ join ?sep (map S xs)"
    using cons.hyps by (simp add: join_Cons)
  with cons.prems(6) obtain f where f: "fuel = Suc f" "length (S x) < f"
    "length (join ?sep (map S xs)) + 1 < f"
    by (cases fuel) auto
  have "parse_value f (S x @ ?sep @ ?after) = Some (x, ?sep @ ?after)"
    using cons.prems(1) f(2) by (simp add: delimited_simps)
  moreover have "skip_ws (?sep @ ?after) = CHR '','' # sw @ ?after"
    by (simp add: skip_ws_Cons is_json_ws_def)
  moreover have "skip_ws (sw @ ?after) = ?after"
  proof -
    obtain y ys where "xs = y # ys"
      using cons.hyps by (cases xs) auto
    moreover obtain c cs where "S y = c # cs" "value_start c"
      using cons.prems(2) by blast
    ultimately obtain cs' where "?after = c # cs'"
      by (cases ys) auto
    then show ?thesis
      using cons.prems(3) \<open>value_start c\<close>
      by (simp add: skip_ws_append skip_ws_Cons value_start_not_ws)
  qed
  moreover have "parse_elements f ?after = Some (xs, rest)"
    using cons.IH [of f] cons.prems f(3) by simp
  ultimately show ?case
    using f(1) joined by simp
qed

lemma parse_members_join:
  assumes "kvs \<noteq> []"
    and "\<forall>kv\<in>set kvs. \<forall>fuel rest. delimited rest \<longrightarrow> length (S (snd kv)) < fuel \<longrightarrow>
           parse_value fuel (S (snd kv) @ rest) = Some (snd kv, rest)"
    and "\<forall>v. \<exists>c cs. S v = c # cs \<and> value_start c"
    and "ws_string cw" and "ws_string sw" and "ws_string tail" and "tail = [] \<or> hd tail = CHR 0x0A"
    and "length (join (CHR '','' # sw)
           (map (\<lambda>kv. QuoteJSONString (fst kv) @ CHR '':'' # cw @ S (snd kv)) kvs)) + 1 < fuel"
  shows "parse_members fuel
           (join (CHR '','' # sw) (map (\<lambda>kv. QuoteJSONString (fst kv) @ CHR '':'' # cw @ S (snd kv)) kvs)
            @ tail @ CHR ''}'' # rest)
         = Some (kvs, rest)"
  using assms
proof (induction kvs arbitrary: fuel rule: list_nonempty_induct)
  case (single kv)
  let ?k = "fst kv" and ?v = "snd kv"
  let ?after = "tail @ CHR ''}'' # rest"
  from single.prems(7) obtain f where f: "fuel = Suc f" "length (S ?v) < f"
    by (cases fuel) auto
  have key: "parse_chars (concat (map escape ?k) @ dquote # CHR '':'' # cw @ S ?v @ ?after)
      = Some (?k, CHR '':'' # cw @ S ?v @ ?after)"
    by (rule parse_chars_quoted)
  have colon: "skip_ws (CHR '':'' # cw @ S ?v @ ?after) = CHR '':'' # cw @ S ?v @ ?after"
    by (simp add: skip_ws_Cons is_json_ws_def)
  obtain c cs where c: "S ?v = c # cs" "value_start c"
    using single.prems(2) by blast
  then have blank: "skip_ws (cw @ S ?v @ ?after) = S ?v @ ?after"
    using single.prems(3) by (simp add: skip_ws_append skip_ws_Cons value_start_not_ws)
  have "delimited ?after"
    using single.prems(6) by (simp add: delimited_tail delimited_simps)
  with single.prems(1) f have val: "parse_value f (S ?v @ ?after) = Some (?v, ?after)"
    by simp
  have close: "skip_ws ?after = CHR ''}'' # rest"
    using single.prems(5) by (simp add: skip_ws_append skip_ws_Cons is_json_ws_def)
  show ?case
    using f(1) key colon blank val close by (simp add: QuoteJSONString_def)
next
  case (cons kv kvs)
  let ?k = "fst kv" and ?v = "snd kv"
  let ?sep = "CHR '','' # sw"
  let ?M = "\<lambda>kv. QuoteJSONString (fst kv) @ CHR '':'' # cw @ S (snd kv)"
  let ?next = "join ?sep (map ?M kvs) @ tail @ CHR ''}'' # rest"
  let ?after = "?sep @ ?next"
  have joined: "join ?sep (map ?M (kv # kvs)) = ?M kv @ ?sep @ join ?sep (map ?M kvs)"
    using cons.hyps by (simp add: join_Cons)
  with cons.prems(7) obtain f where f: "fuel = Suc f" "length (S ?v) < f"
    "length (join ?sep (map ?M kvs)) + 1 < f"
    by (cases fuel) auto
  have key: "parse_chars (concat (map escape ?k) @ dquote # CHR '':'' # cw @ S ?v @ ?after)
      = Some (?k, CHR '':'' # cw @ S ?v @ ?after)"
    by (rule parse_chars_quoted)
  have colon: "skip_ws (CHR '':'' # cw @ S ?v @ ?after) = CHR '':'' # cw @ S ?v @ ?after"
    by (simp add: skip_ws_Cons is_json_ws_def)
  obtain c cs where c: "S ?v = c # cs" "value_start c"
    using cons.prems(2) by blast
  then have blank: "skip_ws (cw @ S ?v @ ?after) = S ?v @ ?after"
    using cons.prems(3) by (simp add: skip_ws_append skip_ws_Cons value_start_not_ws)
  have val: "parse_value f (S ?v @ ?after) = Some (?v, ?after)"
    using cons.prems(1) f(2) by (simp add: delimited_simps)
  have comma: "skip_ws ?after = CHR '','' # sw @ ?next"
    by (simp add: skip_ws_Cons is_json_ws_def)
  have start: "skip_ws (sw @ ?next) = ?next"
  proof -
    obtain kv' kvs' where "kvs = kv' # kvs'"
      using cons.hyps by (cases kvs) auto
    then obtain cs' where "?next = dquote # cs'"
      by (cases kvs') (auto simp: QuoteJSONString_def)
    then show ?thesis
      using cons.prems(4) by (simp add: skip_ws_append skip_ws_Cons is_json_ws_def dquote_def)
  qed
  have more: "parse_members f ?next = Some (kvs, rest)"
    using cons.IH [of f] cons.prems f(3) by simp
  show ?case
    unfolding joined f(1)
    using key colon blank val comma start more by (simp add: QuoteJSONString_def)
qed

lemma show_int_first: "\<exists>c cs. show_int i = c # cs \<and> (c = CHR ''-'' \<or> is_digit c)"
proof -
  let ?n = "nat (if i < 0 then - i else i)"
  obtain c cs where c: "show_nat ?n = c # cs"
    using show_nat_not_Nil by (cases "show_nat ?n") auto
  then have "is_digit c"
    using show_nat_digits [of ?n] by simp
  with c show ?thesis
    by (auto simp: show_int_def)
qed

lemma parse_value_stringify:
  assumes "ws_string gap"
  shows "ws_string ind \<Longrightarrow> delimited rest \<Longrightarrow> length (stringify gap ind v) < fuel \<Longrightarrow>
         parse_value fuel (stringify gap ind v @ rest) = Some (v, rest)"
proof (induction v arbitrary: ind fuel rest)
  case (JString s)
  then obtain f where "fuel = Suc f"
    by (cases fuel) auto
  then show ?case
    by (simp add: QuoteJSONString_def parse_chars_quoted)
next
  case (JNumber i)
  then obtain f where f: "fuel = Suc f"
    by (cases fuel) auto
  obtain c cs where c: "show_int i = c # cs" "c = CHR ''-'' \<or> is_digit c"
    using show_int_first by blast
  then have "c \<noteq> dquote" "c \<noteq> CHR ''[''" "c \<noteq> CHR ''{''"
    by (auto simp: is_digit_def dquote_def)
  then have "parse_value (Suc f) (show_int i @ rest) = parse_number (show_int i @ rest)"
    using c(1) by simp
  then show ?case
    using f JNumber.prems(2) by (simp add: parse_number_show_int)
next
  case (JArray xs)
  then obtain f where f: "fuel = Suc f"
    by (cases fuel) auto
  show ?case
  proof (cases "xs = []")
    case True
    then show ?thesis
      using f by (simp add: skip_ws_Cons is_json_ws_def dquote_def)
  next
    case False
    let ?S = "stringify gap (ind @ gap)"
    from wrap_shape [OF assms JArray.prems(1)] obtain pre sw tail where shape:
      "ws_string pre" "ws_string sw" "ws_string tail" "tail = [] \<or> hd tail = CHR 0x0A"
      "\<And>parts. wrap gap ind ''['' parts '']'' = ''['' @ pre @ join (CHR '','' # sw) parts @ tail @ '']''"
      by blast
    let ?inner = "join (CHR '','' # sw) (map ?S xs)"
    have printed: "stringify gap ind (JArray xs) = ''['' @ pre @ ?inner @ tail @ '']''"
      using False shape(5) by simp
    have deeper: "ws_string (ind @ gap)"
      using assms JArray.prems(1) by (simp add: ws_string_def)
    have elems: "\<forall>x\<in>set xs. \<forall>fuel rest. delimited rest \<longrightarrow> length (?S x) < fuel \<longrightarrow>
        parse_value fuel (?S x @ rest) = Some (x, rest)"
      using JArray.IH deeper by blast
    have starts: "\<forall>x. \<exists>c cs. ?S x = c # cs \<and> value_start c"
      using stringify_start by blast
    have enough: "length ?inner + 1 < f"
      using JArray.prems(3) f printed by simp
    have parsed: "parse_elements f (?inner @ tail @ CHR '']'' # rest) = Some (xs, rest)"
      by (rule parse_elements_join [OF False elems starts shape(2,3,4) enough])
    obtain x xs' where "xs = x # xs'"
      using False by (cases xs) auto
    moreover obtain c cs where "?S x = c # cs" "value_start c"
      using stringify_start by blast
    ultimately obtain cs' where first: "?inner @ tail @ CHR '']'' # rest = c # cs'"
      by (cases xs') auto
    then have "skip_ws (pre @ ?inner @ tail @ CHR '']'' # rest) = c # cs'"
      using shape(1) \<open>value_start c\<close> by (simp add: skip_ws_append skip_ws_Cons value_start_not_ws)
    then show ?thesis
      using f printed first parsed \<open>value_start c\<close> value_start_not_ws [of c]
      by (simp add: dquote_def)
  qed
next
  case (JObject kvs)
  then obtain f where f: "fuel = Suc f"
    by (cases fuel) auto
  show ?case
  proof (cases "kvs = []")
    case True
    then show ?thesis
      using f by (simp add: skip_ws_Cons is_json_ws_def dquote_def)
  next
    case False
    let ?S = "stringify gap (ind @ gap)"
    let ?cw = "if gap = [] then [] else '' ''"
    let ?M = "\<lambda>kv. QuoteJSONString (fst kv) @ CHR '':'' # ?cw @ ?S (snd kv)"
    from wrap_shape [OF assms JObject.prems(1)] obtain pre sw tail where shape:
      "ws_string pre" "ws_string sw" "ws_string tail" "tail = [] \<or> hd tail = CHR 0x0A"
      "\<And>parts. wrap gap ind ''{'' parts ''}'' = ''{'' @ pre @ join (CHR '','' # sw) parts @ tail @ ''}''"
      by blast
    let ?inner = "join (CHR '','' # sw) (map ?M kvs)"
    have same: "(\<lambda>kv. QuoteJSONString (fst kv) @ (if gap = [] then '':'' else '': '') @ ?S (snd kv)) = ?M"
      by auto
    have printed: "stringify gap ind (JObject kvs) = ''{'' @ pre @ ?inner @ tail @ ''}''"
      using False shape(5) by (simp add: same)
    have deeper: "ws_string (ind @ gap)"
      using assms JObject.prems(1) by (simp add: ws_string_def)
    have colon: "ws_string ?cw"
      by (simp add: ws_string_def is_json_ws_def)
    have elems: "\<forall>kv\<in>set kvs. \<forall>fuel rest. delimited rest \<longrightarrow> length (?S (snd kv)) < fuel \<longrightarrow>
        parse_value fuel (?S (snd kv) @ rest) = Some (snd kv, rest)"
    proof (intro ballI allI impI)
      fix kv fuel rest
      assume "kv \<in> set kvs" "delimited rest" "length (?S (snd kv)) < fuel"
      moreover have "snd kv \<in> Basic_BNFs.snds kv"
        by (cases kv) simp
      ultimately show "parse_value fuel (?S (snd kv) @ rest) = Some (snd kv, rest)"
        using JObject.IH deeper by blast
    qed
    have starts: "\<forall>v. \<exists>c cs. ?S v = c # cs \<and> value_start c"
      using stringify_start by blast
    have enough: "length ?inner + 1 < f"
      using JObject.prems(3) f printed by simp
    have parsed: "parse_members f (?inner @ tail @ CHR ''}'' # rest) = Some (kvs, rest)"
      by (rule parse_members_join [OF False elems starts colon shape(2,3,4) enough])
    obtain kv kvs' where "kvs = kv # kvs'"
      using False by (cases kvs) auto
    then obtain cs' where first: "?inner @ tail @ CHR ''}'' # rest = dquote # cs'"
      by (cases kvs') (auto simp: QuoteJSONString_def)
    then have "skip_ws (pre @ ?inner @ tail @ CHR ''}'' # rest) = dquote # cs'"
      using shape(1) by (simp add: skip_ws_append skip_ws_Cons is_json_ws_def dquote_def)
    then show ?thesis
      using f printed first parsed by (simp add: dquote_def)
  qed
qed

lemma JSON_parse_stringify: "JSON_parse (JSON_stringify n v) = Some v"
proof -
  let ?text = "JSON_stringify n v"
  have gap: "ws_string (replicate n (CHR '' ''))" "ws_string []"
    by (simp_all add: ws_string_def is_json_ws_def list_all_iff)
  obtain c cs where "?text = c # cs" "value_start c"
    using stringify_start [of "replicate n (CHR '' '')" "[]" v] by (auto simp: JSON_stringify_def)
  then have "skip_ws ?text = ?text"
    by (simp add: skip_ws_Cons value_start_not_ws)
  moreover have "parse_value (Suc (length ?text)) (?text @ []) = Some (v, [])"
    unfolding JSON_stringify_def
    by (rule parse_value_stringify [OF gap]) (simp_all add: delimited_simps)
  ultimately show ?thesis
    by (simp add: JSON_parse_def skip_ws_def)
qed

text \<open>
  C3, as the code has it. A structured-mode run prints \<open>JSON.stringify(data, null, 2)\<close>.
  Parsing that text gives back the document, and reading the document gives back the
  report. The range, the author, the three statistics, the repository name of every commit
  and both fields of every note are members of the output, unchanged; the hash, the date
  and the message of a commit are members when they are defined, and are left out when
  they are undefined.
\<close>

theorem structured_output_round_trip:
  assumes "build_data w cfg = Inr data" and "JSON_OUTPUT cfg"
  shows "run w cfg = Inr [JSON_stringify 2 (data_json data)]
       \<and> JSON_parse (JSON_stringify 2 (data_json data)) = Some (data_json data)
       \<and> read_data (data_json data) = Some data
       \<and> member ''range'' (data_json data) = Some (JString (range' data))
       \<and> member ''author'' (data_json data) = Some (JString (author data))
       \<and> member ''stats'' (data_json data) = Some (stats_json (stats data))
       \<and> member ''reposTouched'' (stats_json (stats data)) = Some (JNumber (int (reposTouched (stats data))))
       \<and> member ''totalCommits'' (stats_json (stats data)) = Some (JNumber (int (totalCommits (stats data))))
       \<and> member ''memoryEntries'' (stats_json (stats data)) = Some (JNumber (int (memoryEntries (stats data))))
       \<and> member ''commits'' (data_json data) = Some (JArray (map commit_json (commits data)))
       \<and> member ''memory'' (data_json data) = Some (JArray (map memory_json (memory data)))
       \<and> list_all (\<lambda>c. member ''repo'' (commit_json c) = Some (JString (repo c))
                        \<and> member ''hash'' (commit_json c) = map_option JString (hash c)
                        \<and> member ''date'' (commit_json c) = map_option JString (date c)
                        \<and> member ''msg'' (commit_json c) = map_option JString (msg c))
            (commits data)
       \<and> list_all (\<lambda>m. member ''date'' (memory_json m) = Some (JString (mem_date m))
                        \<and> member ''content'' (memory_json m) = Some (JString (content m)))
            (memory data)"
proof -
  have fields: "member ''repo'' (commit_json c) = Some (JString (repo c))
      \<and> member ''hash'' (commit_json c) = map_option JString (hash c)
      \<and> member ''date'' (commit_json c) = map_option JString (date c)
      \<and> member ''msg'' (commit_json c) = map_option JString (msg c)" for c
    by (cases "hash c"; cases "date c"; cases "msg c")
       (simp_all add: member_def commit_json_def property_def)
  have "run w cfg = Inr [JSON_stringify 2 (data_json data)]"
    using assms by (simp add: run_def)
  moreover have "list_all (\<lambda>c. member ''repo'' (commit_json c) = Some (JString (repo c))
                        \<and> member ''hash'' (commit_json c) = map_option JString (hash c)
                        \<and> member ''date'' (commit_json c) = map_option JString (date c)
                        \<and> member ''msg'' (commit_json c) = map_option JString (msg c))
            (commits data)"
    using fields by (simp add: list_all_iff)
  ultimately show ?thesis
    by (simp add: JSON_parse_stringify read_data_json list_all_iff)
       (simp add: member_def data_json_def stats_json_def memory_json_def)
qed

theorem structured_output_round_trip_witness:
  "run demo_world (demo_config\<lparr>JSON_OUTPUT := True\<rparr>) = Inr [JSON_stringify 2 (data_json demo_data)]
   \<and> JSON_parse (JSON_stringify 2 (data_json demo_data)) = Some (data_json demo_data)
   \<and> read_data (data_json demo_data) = Some demo_data
   \<and> member ''msg'' (commit_json (hd (commits demo_data))) = Some (JString ''release'')"
proof -
  have built: "build_data demo_world (demo_config\<lparr>JSON_OUTPUT := True\<rparr>) = Inr demo_data"
    by code_simp
  have flag: "JSON_OUTPUT (demo_config\<lparr>JSON_OUTPUT := True\<rparr>)"
    by simp
  have first: "hd (commits demo_data)
      = \<lparr>hash = Some ''0c1d2e3'', date = Some ''2024-03-31'', msg = Some ''release'', repo = ''lib''\<rparr>"
    by (simp add: demo_data_def demo_commits_def)
  show ?thesis
    using structured_output_round_trip [OF built flag] first
    by (simp add: demo_data_def demo_commits_def)
qed

text \<open>
  C3, as stated, fails: for a log line of two fields the commit record has no message, and
  the object printed for it has the members \<open>hash\<close>, \<open>date\<close> and \<open>repo\<close> only.
\<close>

theorem structured_output_omits_counterexample:
  "build_data short_world twin_config = Inr short_data
   \<and> run short_world twin_config = Inr [JSON_stringify 2 (data_json short_data)]
   \<and> commits short_data = [short_commit]
   \<and> msg short_commit = None
   \<and> commit_json short_commit
       = JObject [(''hash'', JString ''a1b2c3d''), (''date'', JString ''2024-03-31''),
                  (''repo'', JString ''app'')]
   \<and> member ''msg'' (commit_json short_commit) = None
   \<and> JSON_stringify 0 (commit_json short_commit)
       = ''{'' @ [dquote] @ ''hash'' @ [dquote] @ '':'' @ [dquote] @ ''a1b2c3d'' @ [dquote]
         @ '','' @ [dquote] @ ''date'' @ [dquote] @ '':'' @ [dquote] @ ''2024-03-31'' @ [dquote]
         @ '','' @ [dquote] @ ''repo'' @ [dquote] @ '':'' @ [dquote] @ ''app'' @ [dquote] @ ''}''"
  by code_simp

end
